theory Spec2Isabelle
  imports Complex_Main "HOL-Library.Char_ord" "HOL-Library.List_Lexorder"
begin

section \<open>The network optimizer of src/optimization/network_optimizer.py\<close>

text \<open>
  The class \<open>NetworkOptimizer\<close> builds a facility-location program with PuLP, hands it
  to the CBC solver and reads the variable values back. Numbers are modelled as
  \<^typ>\<open>real\<close> (the source computes in binary floating point; rounding error of the
  float arithmetic itself is outside the model, the source's own \<open>round(_, 2)\<close> is in
  it). The solver is code outside the repository and is a parameter of \<open>solve\<close>: a
  function from the problem and the time limit to a status and values, of which
  \<open>solve\<close> stores those of the variables that occur in the problem.
\<close>

subsection \<open>Tables\<close>

record warehouse_row =
  wh_warehouse :: string
  wh_fixed_cost_annual :: real

record demand_row =
  dm_city :: string
  dm_service_level :: string
  dm_demand :: real

record distance_row =
  ds_warehouse :: string
  ds_customer_city :: string
  ds_service_level :: string
  ds_transport_cost_per_shipment :: real

subsection \<open>Linear programs\<close>

datatype lp_var = warehouse_open string | shipment "string \<times> string"

text \<open>
  An affine expression: a list of terms (coefficient, variable) and a constant. The
  product of a variable with the number 0 is the empty expression: PuLP keeps no term
  for it, so the variable does not occur in it.
\<close>

datatype lin_expr = Affine (terms: "(real \<times> lp_var) list") (const: real)

definition var_term :: "real \<Rightarrow> lp_var \<Rightarrow> lin_expr" where
  "var_term k v = (if k = 0 then Affine [] 0 else Affine [(k, v)] 0)"

definition num :: "real \<Rightarrow> lin_expr" where
  "num k = Affine [] k"

definition lpSum :: "lin_expr list \<Rightarrow> lin_expr" where
  "lpSum es = Affine (concat (map terms es)) (sum_list (map const es))"

definition plus_expr :: "lin_expr \<Rightarrow> lin_expr \<Rightarrow> lin_expr" where
  "plus_expr e1 e2 = Affine (terms e1 @ terms e2) (const e1 + const e2)"

definition value_of :: "lin_expr \<Rightarrow> (lp_var \<Rightarrow> real) \<Rightarrow> real" where
  "value_of e a = sum_list (map (\<lambda>(k, v). k * a v) (terms e)) + const e"

text \<open>
  \<open>value(e)\<close> reads the \<open>varValue\<close> of the variables of the expression: it is
  \<open>None\<close> as soon as one of them has none.
\<close>

fun value_acc :: "real \<Rightarrow> (real \<times> lp_var) list \<Rightarrow> (lp_var \<Rightarrow> real option) \<Rightarrow> real option" where
  "value_acc s [] vv = Some s"
| "value_acc s ((k, v) # ts) vv =
     (case vv v of None \<Rightarrow> None | Some r \<Rightarrow> value_acc (s + r * k) ts vv)"

definition lp_value :: "lin_expr \<Rightarrow> (lp_var \<Rightarrow> real option) \<Rightarrow> real option" where
  "lp_value e vv = value_acc (const e) (terms e) vv"

definition variables_of :: "lin_expr \<Rightarrow> lp_var list" where
  "variables_of e = map snd (terms e)"

datatype sense = LE | EQ | GE

record lp_constraint =
  c_lhs :: lin_expr
  c_sense :: sense
  c_rhs :: lin_expr
  c_name :: string

definition holds :: "lp_constraint \<Rightarrow> (lp_var \<Rightarrow> real) \<Rightarrow> bool" where
  "holds c a =
     (case c_sense c of
        LE \<Rightarrow> value_of (c_lhs c) a \<le> value_of (c_rhs c) a
      | EQ \<Rightarrow> value_of (c_lhs c) a = value_of (c_rhs c) a
      | GE \<Rightarrow> value_of (c_lhs c) a \<ge> value_of (c_rhs c) a)"

text \<open>
  A problem: the objective (minimised), the constraints in the order they were added,
  the variables declared \<open>cat='Binary'\<close> and those declared \<open>lowBound=0\<close>, continuous.
\<close>

record lp_problem =
  objective :: lin_expr
  constraints :: "lp_constraint list"
  binaries :: "lp_var list"
  continuous_lb0 :: "lp_var list"

text \<open>
  \<open>LpProblem.variables()\<close>: the variables that occur in the objective or in a
  constraint. Only these are handed to the solver and receive a value from it.
\<close>

definition variables :: "lp_problem \<Rightarrow> lp_var list" where
  "variables p =
     variables_of (objective p) @
     concat (map (\<lambda>c. variables_of (c_lhs c) @ variables_of (c_rhs c)) (constraints p))"

definition feasible :: "lp_problem \<Rightarrow> (lp_var \<Rightarrow> real) \<Rightarrow> bool" where
  "feasible p a \<longleftrightarrow>
     list_all (\<lambda>v. a v = 0 \<or> a v = 1) (binaries p) \<and>
     list_all (\<lambda>v. 0 \<le> a v) (continuous_lb0 p) \<and>
     list_all (\<lambda>c. holds c a) (constraints p)"

text \<open>The statuses of \<open>LpStatus\<close>, and \<open>Feasible\<close>, which \<open>solve\<close> tests for.\<close>

datatype lp_status = Not_Solved | Optimal | Feasible | Infeasible | Unbounded | Undefined

type_synonym solver = "lp_problem \<Rightarrow> nat \<Rightarrow> lp_status \<times> (lp_var \<Rightarrow> real)"

subsection \<open>Solution and optimizer state\<close>

record route =
  r_warehouse :: string
  r_customer :: string
  r_shipments :: real
  r_cost_per_shipment :: real
  r_total_cost :: real

record solution =
  open_warehouses :: "string list"
  num_warehouses :: nat
  routes :: "route list"
  total_cost :: real
  fixed_cost :: real
  variable_cost :: real
  objective_value :: "real option"

record scenario =
  sc_max_warehouses :: int
  sc_actual_warehouses :: nat
  sc_total_cost :: real
  sc_fixed_cost :: real
  sc_variable_cost :: real

text \<open>
  The fields of \<open>self\<close>. \<open>y\<close> and \<open>x\<close> are the keys of the two variable dictionaries;
  \<open>var_value\<close> is the \<open>varValue\<close> of each variable: \<open>None\<close> in a variable just
  created, and in one the solver was never given. \<open>model\<close> is \<open>None\<close> until
  \<open>build_model\<close> ran.
\<close>

record optimizer =
  model :: "lp_problem option"
  warehouses :: "string list"
  customers :: "string list"
  warehouse_df :: "warehouse_row list"
  demand_df :: "demand_row list"
  distance_df :: "distance_row list"
  y :: "string list"
  x :: "(string \<times> string) list"
  var_value :: "lp_var \<Rightarrow> real option"
  demand_dict :: "(string \<times> real) list"
  cost_dict :: "string \<times> string \<rightharpoonup> real"
  fixed_cost_dict :: "string \<rightharpoonup> real"
  solution :: "solution option"

datatype py_error = KeyError string | AttributeError string | TypeError

subsection \<open>Python and pandas helpers\<close>

text \<open>The keys of a dict filled from a list: each key once, at its first position.\<close>

fun dict_keys :: "'a list \<Rightarrow> 'a list" where
  "dict_keys [] = []"
| "dict_keys (k # ks) = k # dict_keys (filter (\<lambda>j. j \<noteq> k) ks)"

text \<open>\<open>dict(zip(ks, vs))\<close> and the loop \<open>d[k] = v\<close>: a later entry overwrites.\<close>

definition dict_of :: "('k \<times> 'v) list \<Rightarrow> ('k \<rightharpoonup> 'v)" where
  "dict_of kvs = foldl (\<lambda>m (k, v). m(k \<mapsto> v)) Map.empty kvs"

text \<open>\<open>d.get(k, dflt)\<close>.\<close>

definition dict_get :: "('k \<rightharpoonup> 'v) \<Rightarrow> 'k \<Rightarrow> 'v \<Rightarrow> 'v" where
  "dict_get d k dflt = (case d k of None \<Rightarrow> dflt | Some v \<Rightarrow> v)"

text \<open>
  \<open>df.groupby('city')['demand'].sum().to_dict()\<close>: one key per city, in ascending
  order, with the sum of its rows.
\<close>

definition groupby_sum :: "demand_row list \<Rightarrow> (string \<times> real) list" where
  "groupby_sum rows =
     map (\<lambda>c. (c, sum_list (map dm_demand (filter (\<lambda>r. dm_city r = c) rows))))
         (sort (remdups (map dm_city rows)))"

text \<open>\<open>df[col].unique().tolist()\<close>: order of first appearance.\<close>

definition unique :: "'a list \<Rightarrow> 'a list" where
  "unique xs = dict_keys xs"

text \<open>
  \<open>round(v, 2)\<close>: to the nearest multiple of 1/100, a tie to the even one.
\<close>

definition round2 :: "real \<Rightarrow> real" where
  "round2 v =
     (let s = v * 100; f = \<lfloor>s\<rfloor>; d = s - of_int f
      in (if d < 1 / 2 then of_int f
          else if 1 / 2 < d then of_int (f + 1)
          else if even f then of_int f else of_int (f + 1)) / 100)"

text \<open>
  \<open>series.idxmin()\<close> on a default index: the position of the first minimum. The scan
  keeps the best position so far and replaces it only by a strictly smaller value.
\<close>

fun idxmin_scan :: "real list \<Rightarrow> nat \<Rightarrow> nat \<Rightarrow> real \<Rightarrow> nat" where
  "idxmin_scan [] i best bv = best"
| "idxmin_scan (v # vs) i best bv =
     (if v < bv then idxmin_scan vs (Suc i) i v else idxmin_scan vs (Suc i) best bv)"

definition idxmin :: "real list \<Rightarrow> nat" where
  "idxmin vs = (case vs of [] \<Rightarrow> 0 | v # rest \<Rightarrow> idxmin_scan rest 1 0 v)"

subsection \<open>load_data\<close>

definition load_data ::
  "warehouse_row list \<Rightarrow> demand_row list \<Rightarrow> distance_row list \<Rightarrow> optimizer" where
  "load_data wdf ddf mdf =
     \<lparr> model = None,
       warehouses = map wh_warehouse wdf,
       customers = unique (map dm_city ddf),
       warehouse_df = wdf,
       demand_df = ddf,
       distance_df = mdf,
       y = [], x = [], var_value = (\<lambda>_. None),
       demand_dict = [], cost_dict = Map.empty, fixed_cost_dict = Map.empty,
       solution = None \<rparr>"

subsection \<open>build_model\<close>

text \<open>
  The loop \<open>for c in demand_dict.keys()\<close> with \<open>demand_dict[c]\<close> in its body runs
  over the items of the dictionary. \<open>if max_warehouses:\<close> tests the truth value of the
  argument, which is false for \<open>None\<close> and for 0. The variables are created anew, so
  none of them has a value.
\<close>

text \<open>\<open>[fixed_cost_dict[w] * y[w] for w in self.warehouses]\<close>; a missing key raises.\<close>

fun fixed_terms :: "(string \<rightharpoonup> real) \<Rightarrow> string list \<Rightarrow> py_error + lin_expr list" where
  "fixed_terms d [] = Inr []"
| "fixed_terms d (w # ws) =
     (case d w of
        None \<Rightarrow> Inl (KeyError w)
      | Some f \<Rightarrow>
          (case fixed_terms d ws of
             Inl e \<Rightarrow> Inl e
           | Inr ts \<Rightarrow> Inr (var_term f (warehouse_open w) # ts)))"

definition demand_constraint :: "string list \<Rightarrow> string \<Rightarrow> real \<Rightarrow> lp_constraint" where
  "demand_constraint ws c d =
     \<lparr> c_lhs = lpSum (map (\<lambda>w. var_term 1 (shipment (w, c))) ws),
       c_sense = EQ,
       c_rhs = num d,
       c_name = ''Demand_'' @ c \<rparr>"

definition capacity_constraint :: "real \<Rightarrow> string \<Rightarrow> string \<Rightarrow> lp_constraint" where
  "capacity_constraint M w c =
     \<lparr> c_lhs = var_term 1 (shipment (w, c)),
       c_sense = LE,
       c_rhs = var_term M (warehouse_open w),
       c_name = ''Capacity_'' @ w @ ''_'' @ c \<rparr>"

definition max_warehouses_constraint :: "string list \<Rightarrow> int \<Rightarrow> lp_constraint" where
  "max_warehouses_constraint ws n =
     \<lparr> c_lhs = lpSum (map (\<lambda>w. var_term 1 (warehouse_open w)) ws),
       c_sense = LE,
       c_rhs = num (of_int n),
       c_name = ''Max_Warehouses'' \<rparr>"

definition build_model :: "optimizer \<Rightarrow> int option \<Rightarrow> string \<Rightarrow> py_error + optimizer" where
  "build_model st max_warehouses service_level_filter =
     (let demand_filtered = filter (\<lambda>r. dm_service_level r = service_level_filter) (demand_df st);
          distance_filtered =
            filter (\<lambda>r. ds_service_level r = service_level_filter) (distance_df st);
          dd = groupby_sum demand_filtered;
          cd = dict_of (map (\<lambda>r. ((ds_warehouse r, ds_customer_city r),
                                    ds_transport_cost_per_shipment r)) distance_filtered);
          fd = dict_of (zip (map wh_warehouse (warehouse_df st))
                            (map wh_fixed_cost_annual (warehouse_df st)));
          ys = dict_keys (warehouses st);
          rts = concat (map (\<lambda>w. map (\<lambda>c. (w, c)) (map fst dd)) (warehouses st));
          xs = dict_keys rts
      in case fixed_terms fd (warehouses st) of
           Inl e \<Rightarrow> Inl e
         | Inr fts \<Rightarrow>
             (let obj = plus_expr (lpSum fts)
                          (lpSum (map (\<lambda>(w, c). var_term (dict_get cd (w, c) 0) (shipment (w, c))) rts));
                  cons1 = map (\<lambda>(c, d). demand_constraint (warehouses st) c d) dd;
                  M = sum_list (map snd dd);
                  cons2 = concat (map (\<lambda>w. map (\<lambda>c. capacity_constraint M w c) (map fst dd))
                                      (warehouses st));
                  cons3 = (case max_warehouses of
                             None \<Rightarrow> []
                           | Some n \<Rightarrow>
                               if n \<noteq> 0 then [max_warehouses_constraint (warehouses st) n]
                               else [])
              in Inr (st \<lparr> model := Some \<lparr> objective = obj,
                                           constraints = cons1 @ cons2 @ cons3,
                                           binaries = map warehouse_open ys,
                                           continuous_lb0 = map shipment xs \<rparr>,
                           y := ys, x := xs, var_value := (\<lambda>_. None),
                           demand_dict := dd, cost_dict := cd, fixed_cost_dict := fd \<rparr>)))"

subsection \<open>extract_solution and solve\<close>

text \<open>\<open>sum(self.fixed_cost_dict[w] for w in open_warehouses)\<close>; a missing key raises.\<close>

fun sum_fixed :: "(string \<rightharpoonup> real) \<Rightarrow> string list \<Rightarrow> py_error + real" where
  "sum_fixed d [] = Inr 0"
| "sum_fixed d (w # ws) =
     (case d w of
        None \<Rightarrow> Inl (KeyError w)
      | Some f \<Rightarrow> (case sum_fixed d ws of Inl e \<Rightarrow> Inl e | Inr s \<Rightarrow> Inr (f + s)))"

text \<open>
  \<open>[w for w in self.warehouses if self.y[w].varValue > 0.5]\<close>: comparing \<open>None\<close>
  with a number raises \<open>TypeError\<close>.
\<close>

fun open_list :: "(lp_var \<Rightarrow> real option) \<Rightarrow> string list \<Rightarrow> py_error + string list" where
  "open_list vv [] = Inr []"
| "open_list vv (w # ws) =
     (case vv (warehouse_open w) of
        None \<Rightarrow> Inl TypeError
      | Some v \<Rightarrow>
          (case open_list vv ws of
             Inl e \<Rightarrow> Inl e
           | Inr os \<Rightarrow> Inr (if 0.5 < v then w # os else os)))"

definition route_of :: "optimizer \<Rightarrow> string \<times> string \<Rightarrow> real \<Rightarrow> route" where
  "route_of st k flow =
     \<lparr> r_warehouse = fst k,
       r_customer = snd k,
       r_shipments = round2 flow,
       r_cost_per_shipment = dict_get (cost_dict st) k 0,
       r_total_cost = round2 (flow * dict_get (cost_dict st) k 0) \<rparr>"

text \<open>The loop over \<open>self.x\<close>; \<open>flow > 0.01\<close> raises when the flow is \<open>None\<close>.\<close>

fun collect_routes :: "optimizer \<Rightarrow> (string \<times> string) list \<Rightarrow> py_error + route list" where
  "collect_routes st [] = Inr []"
| "collect_routes st (k # ks) =
     (case var_value st (shipment k) of
        None \<Rightarrow> Inl TypeError
      | Some flow \<Rightarrow>
          (case collect_routes st ks of
             Inl e \<Rightarrow> Inl e
           | Inr rs \<Rightarrow> Inr (if 0.01 < flow then route_of st k flow # rs else rs)))"

text \<open>
  \<open>pd.DataFrame([])\<close> has no columns, so \<open>routes_df['total_cost']\<close> raises
  \<open>KeyError\<close> when no route was collected.
\<close>

definition extract_solution :: "optimizer \<Rightarrow> py_error + optimizer" where
  "extract_solution st =
     (case model st of
        None \<Rightarrow> Inl (AttributeError ''y'')
      | Some p \<Rightarrow>
          (case open_list (var_value st) (warehouses st) of
             Inl e \<Rightarrow> Inl e
           | Inr opens \<Rightarrow>
               (case collect_routes st (x st) of
                  Inl e \<Rightarrow> Inl e
                | Inr rs \<Rightarrow>
                    (case sum_fixed (fixed_cost_dict st) opens of
                       Inl e \<Rightarrow> Inl e
                     | Inr total_fixed_cost \<Rightarrow>
                         (if rs = [] then Inl (KeyError ''total_cost'')
                          else (let total_variable_cost = sum_list (map r_total_cost rs);
                                    total = total_fixed_cost + total_variable_cost
                                in Inr (st \<lparr> solution := Some
                                     \<lparr> open_warehouses = opens,
                                       num_warehouses = length opens,
                                       routes = rs,
                                       total_cost = total,
                                       fixed_cost = total_fixed_cost,
                                       variable_cost = total_variable_cost,
                                       objective_value =
                                         lp_value (objective p) (var_value st) \<rparr> \<rparr>)))))))"

text \<open>
  The solver answers with a status and the values it found. They are stored in the
  variables of the problem; a variable that is not one of them keeps what it had.
\<close>

definition solve :: "solver \<Rightarrow> optimizer \<Rightarrow> nat \<Rightarrow> py_error + optimizer \<times> solution option" where
  "solve slv st time_limit =
     (case model st of
        None \<Rightarrow> Inl (AttributeError ''solve'')
      | Some p \<Rightarrow>
          (let (status, vals) = slv p time_limit;
               st1 = st \<lparr> var_value :=
                       (\<lambda>v. if v \<in> set (variables p) then Some (vals v) else var_value st v) \<rparr>
           in if status = Optimal \<or> status = Feasible
              then (case extract_solution st1 of
                      Inl e \<Rightarrow> Inl e
                    | Inr st2 \<Rightarrow> Inr (st2, solution st2))
              else Inr (st1, None)))"

subsection \<open>compare_scenarios\<close>

definition scenario_of :: "int \<Rightarrow> solution \<Rightarrow> scenario" where
  "scenario_of n s =
     \<lparr> sc_max_warehouses = n,
       sc_actual_warehouses = num_warehouses s,
       sc_total_cost = total_cost s,
       sc_fixed_cost = fixed_cost s,
       sc_variable_cost = variable_cost s \<rparr>"

text \<open>
  The loop over the caps. The result of \<open>solve\<close> is dropped and \<open>self.solution\<close> is
  read instead.
\<close>

fun sweep ::
  "solver \<Rightarrow> optimizer \<Rightarrow> int list \<Rightarrow> scenario list \<Rightarrow> py_error + optimizer \<times> scenario list" where
  "sweep slv st [] scenarios = Inr (st, scenarios)"
| "sweep slv st (n # ns) scenarios =
     (case build_model st (Some n) ''Standard'' of
        Inl e \<Rightarrow> Inl e
      | Inr st1 \<Rightarrow>
          (case solve slv st1 60 of
             Inl e \<Rightarrow> Inl e
           | Inr (st2, _) \<Rightarrow>
               sweep slv st2 ns
                 (case solution st2 of
                    Some s \<Rightarrow> scenarios @ [scenario_of n s]
                  | None \<Rightarrow> scenarios)))"

text \<open>
  Returns the state, the table, and the row printed as the optimal solution. An empty
  table has no column \<open>total_cost\<close>.
\<close>

definition compare_scenarios ::
  "solver \<Rightarrow> optimizer \<Rightarrow> py_error + optimizer \<times> scenario list \<times> scenario" where
  "compare_scenarios slv st =
     (case sweep slv st [2, 3, 4, 5, 6, 7, 8] [] of
        Inl e \<Rightarrow> Inl e
      | Inr (st', scenario_df) \<Rightarrow>
          (if scenario_df = [] then Inl (KeyError ''total_cost'')
           else (let optimal_idx = idxmin (map sc_total_cost scenario_df);
                     optimal = scenario_df ! optimal_idx
                 in Inr (st', scenario_df, optimal))))"

subsection \<open>run_optimization\<close>

text \<open>
  The endpoint \<open>/optimize\<close> of src/api/main.py up to its call of \<open>solve\<close>: a fresh
  optimizer, \<open>load_data\<close>, \<open>build_model\<close> with the request's cap and service level,
  \<open>solve\<close> with a limit of 60 seconds. What follows there formats the response.
\<close>

definition run_optimization ::
  "solver \<Rightarrow> warehouse_row list \<Rightarrow> demand_row list \<Rightarrow> distance_row list \<Rightarrow>
   int option \<Rightarrow> string \<Rightarrow> py_error + optimizer \<times> solution option" where
  "run_optimization slv wdf ddf mdf max_warehouses service_level =
     (case build_model (load_data wdf ddf mdf) max_warehouses service_level of
        Inl e \<Rightarrow> Inl e
      | Inr st \<Rightarrow> solve slv st 60)"

subsection \<open>Small instances\<close>

text \<open>
  One warehouse \<open>A\<close> with fixed cost 100 and one customer \<open>X\<close> with demand 10,
  shipped at 2 per unit; the solver's answer opens \<open>A\<close> and ships everything.
\<close>

definition ex_warehouse_df :: "warehouse_row list" where
  "ex_warehouse_df = [\<lparr>wh_warehouse = ''A'', wh_fixed_cost_annual = 100\<rparr>]"

definition demand_of :: "string \<Rightarrow> real \<Rightarrow> demand_row" where
  "demand_of c d = \<lparr>dm_city = c, dm_service_level = ''Standard'', dm_demand = d\<rparr>"

definition cost_of :: "string \<Rightarrow> string \<Rightarrow> real \<Rightarrow> distance_row" where
  "cost_of w c u =
     \<lparr>ds_warehouse = w, ds_customer_city = c, ds_service_level = ''Standard'',
      ds_transport_cost_per_shipment = u\<rparr>"

definition ex_demand_df :: "demand_row list" where
  "ex_demand_df = [demand_of ''X'' 10]"

definition ex_distance_df :: "distance_row list" where
  "ex_distance_df = [cost_of ''A'' ''X'' 2]"

definition ex_values :: "lp_var \<Rightarrow> real" where
  "ex_values v = (case v of warehouse_open w \<Rightarrow> 1 | shipment k \<Rightarrow> 10)"

definition ex_solver :: solver where
  "ex_solver p t = (Optimal, ex_values)"

text \<open>The same network when the customer orders nothing: nothing is opened or shipped.\<close>

definition ex_zero_demand_df :: "demand_row list" where
  "ex_zero_demand_df = [demand_of ''X'' 0]"

definition ex_zero_solver :: solver where
  "ex_zero_solver p t = (Optimal, (\<lambda>v. 0))"

text \<open>Unit cost 1/8, which has three decimals.\<close>

definition ex_eighth_distance_df :: "distance_row list" where
  "ex_eighth_distance_df = [cost_of ''A'' ''X'' (1 / 8)]"

text \<open>
  A solver that finds the optimum of the small instance, except that it runs out of time
  without a solution on the model capped at 3 warehouses.
\<close>

definition ex_timeout_solver :: solver where
  "ex_timeout_solver p t =
     (if max_warehouses_constraint [''A''] 3 \<in> set (constraints p)
      then (Not_Solved, (\<lambda>v. 0)) else (Optimal, ex_values))"

text \<open>
  A second customer \<open>Z\<close> with demand 1/100, shipped at 1000 per unit: its flow does not
  exceed the threshold of the route list.
\<close>

definition ex_two_demand_df :: "demand_row list" where
  "ex_two_demand_df = [demand_of ''X'' 10, demand_of ''Z'' (1 / 100)]"

definition ex_two_distance_df :: "distance_row list" where
  "ex_two_distance_df = [cost_of ''A'' ''X'' 2, cost_of ''A'' ''Z'' 1000]"

definition ex_two_values :: "lp_var \<Rightarrow> real" where
  "ex_two_values v =
     (case v of warehouse_open w \<Rightarrow> 1
      | shipment k \<Rightarrow> if snd k = ''X'' then 10 else 1 / 100)"

definition ex_two_solver :: solver where
  "ex_two_solver p t = (Optimal, ex_two_values)"

text \<open>A demand of 10.004, all of it shipped from \<open>A\<close>.\<close>

definition ex_fraction_demand_df :: "demand_row list" where
  "ex_fraction_demand_df = [demand_of ''X'' (2501 / 250)]"

definition ex_fraction_values :: "lp_var \<Rightarrow> real" where
  "ex_fraction_values v = (case v of warehouse_open w \<Rightarrow> 1 | shipment k \<Rightarrow> 2501 / 250)"

definition ex_fraction_solver :: solver where
  "ex_fraction_solver p t = (Optimal, ex_fraction_values)"

text \<open>A warehouse that costs nothing to keep open.\<close>

definition ex_free_warehouse_df :: "warehouse_row list" where
  "ex_free_warehouse_df = [\<lparr>wh_warehouse = ''A'', wh_fixed_cost_annual = 0\<rparr>]"

section \<open>Auxiliary facts\<close>

subsection \<open>Dictionaries and lists\<close>

lemma dict_of_foldl:
  "foldl (\<lambda>m (k, v). m(k \<mapsto> v)) m kvs k =
     (case map_of (rev kvs) k of None \<Rightarrow> m k | Some v \<Rightarrow> Some v)"
  by (induction kvs arbitrary: m) (auto simp: map_add_def split: option.splits)

lemma dict_of_map_of: "dict_of kvs = map_of (rev kvs)"
  by (rule ext) (simp add: dict_of_def dict_of_foldl split: option.splits)

lemma dict_of_eq_None: "dict_of kvs k = None \<longleftrightarrow> k \<notin> fst ` set kvs"
  by (simp add: dict_of_map_of map_of_eq_None_iff)

lemma dict_of_zip_defined:
  "w \<in> set (map f rows) \<Longrightarrow> dict_of (zip (map f rows) (map g rows)) w \<noteq> None"
proof -
  assume "w \<in> set (map f rows)"
  moreover have "fst ` set (zip (map f rows) (map g rows)) = set (map f rows)"
    by (metis length_map map_fst_zip set_map)
  ultimately show ?thesis by (simp only: dict_of_eq_None simp_thms)
qed



lemma set_dict_keys [simp]: "set (dict_keys ks) = set ks"
  by (induction ks rule: dict_keys.induct) auto

lemma distinct_dict_keys [simp]: "distinct (dict_keys ks)"
  by (induction ks rule: dict_keys.induct) auto

lemma dict_keys_distinct: "distinct ks \<Longrightarrow> dict_keys ks = ks"
proof (induction ks)
  case (Cons k ks)
  then have "filter (\<lambda>j. j \<noteq> k) ks = ks" by (auto intro: filter_True)
  with Cons show ?case by simp
qed simp


lemma sum_list_abs_diff:
  "\<forall>x \<in> set xs. \<bar>g x - h x\<bar> \<le> e \<Longrightarrow>
   \<bar>sum_list (map g xs) - sum_list (map h xs)\<bar> \<le> e * real (length xs)"
proof (induction xs)
  case Nil
  then show ?case by simp
next
  case (Cons x xs)
  then have "\<bar>g x - h x\<bar> \<le> e" "\<bar>sum_list (map g xs) - sum_list (map h xs)\<bar> \<le> e * real (length xs)"
    by simp_all
  then show ?case by (simp add: algebra_simps)
qed

lemma sum_list_filter_split:
  "sum_list (map g xs) =
   sum_list (map g (filter P xs)) + sum_list (map g (filter (\<lambda>x. \<not> P x) xs))"
  for g :: "'a \<Rightarrow> real"
  by (induction xs) simp_all

lemma sum_list_binary_filter:
  "\<forall>w \<in> set ws. b w = 0 \<or> b w = 1 \<Longrightarrow>
   sum_list (map (\<lambda>w. f w * b w) ws) = sum_list (map f (filter (\<lambda>w. 0.5 < b w) ws))"
  for f b :: "'a \<Rightarrow> real"
  by (induction ws) auto

lemma filter_eq_distinct: "distinct cs \<Longrightarrow> c \<in> set cs \<Longrightarrow> filter (\<lambda>x. x = c) cs = [c]"
  by (induction cs) (auto simp: filter_empty_conv)

lemma filter_snd_pairs:
  assumes "distinct cs" "c \<in> set cs"
  shows "filter (\<lambda>k. snd k = c) (concat (map (\<lambda>w. map (\<lambda>c. (w, c)) cs) ws)) = map (\<lambda>w. (w, c)) ws"
proof (induction ws)
  case Nil
  then show ?case by simp
next
  case (Cons w ws)
  have "filter (\<lambda>k. snd k = c) (map (\<lambda>c. (w, c)) cs) = map (\<lambda>c. (w, c)) (filter (\<lambda>x. x = c) cs)"
    by (simp add: filter_map comp_def)
  with Cons filter_eq_distinct [OF assms] show ?case by simp
qed

lemma distinct_pairs:
  "distinct ws \<Longrightarrow> distinct cs \<Longrightarrow> distinct (concat (map (\<lambda>w. map (\<lambda>c. (w, c)) cs) ws))"
  by (induction ws) (auto simp: distinct_map inj_on_def)

lemma mem_concat_map_map:
  "w \<in> set ws \<Longrightarrow> c \<in> set cs \<Longrightarrow> f w c \<in> set (concat (map (\<lambda>w. map (\<lambda>c. f w c) cs) ws))"
  by auto

lemma fixed_terms_Inr:
  "\<forall>w \<in> set ws. d w \<noteq> None \<Longrightarrow>
   fixed_terms d ws = Inr (map (\<lambda>w. var_term (dict_get d w 0) (warehouse_open w)) ws)"
  by (induction ws) (auto simp: dict_get_def split: option.splits)

lemma sum_fixed_Inr:
  "\<forall>w \<in> set ws. d w \<noteq> None \<Longrightarrow>
   sum_fixed d ws = Inr (sum_list (map (\<lambda>w. dict_get d w 0) ws))"
  by (induction ws) (auto simp: dict_get_def split: option.splits)

subsection \<open>Aggregated demand\<close>

lemma set_groupby_sum:
  "set (groupby_sum rows) =
     (\<lambda>c. (c, sum_list (map dm_demand (filter (\<lambda>r. dm_city r = c) rows)))) ` dm_city ` set rows"
  by (simp add: groupby_sum_def)

lemma keys_groupby_sum: "set (map fst (groupby_sum rows)) = dm_city ` set rows"
  by (simp add: groupby_sum_def comp_def)

lemma distinct_keys_groupby_sum: "distinct (map fst (groupby_sum rows))"
  by (simp add: groupby_sum_def comp_def)

lemma sum_groups:
  "finite S \<Longrightarrow> dm_city ` set rows \<subseteq> S \<Longrightarrow>
   sum (\<lambda>c. sum_list (map dm_demand (filter (\<lambda>r. dm_city r = c) rows))) S =
   sum_list (map dm_demand rows)"
proof (induction rows)
  case Nil
  then show ?case by simp
next
  case (Cons r rs)
  have "sum (\<lambda>c. sum_list (map dm_demand (filter (\<lambda>q. dm_city q = c) (r # rs)))) S =
        sum (\<lambda>c. (if c = dm_city r then dm_demand r else 0) +
                  sum_list (map dm_demand (filter (\<lambda>q. dm_city q = c) rs))) S"
    by (intro sum.cong) auto
  also have "\<dots> = dm_demand r + sum_list (map dm_demand rs)"
    using Cons by (simp add: sum.distrib)
  finally show ?case by simp
qed

lemma sum_groupby_sum: "sum_list (map snd (groupby_sum rows)) = sum_list (map dm_demand rows)"
proof -
  have "sum_list (map snd (groupby_sum rows)) =
        sum (\<lambda>c. sum_list (map dm_demand (filter (\<lambda>r. dm_city r = c) rows)))
            (set (sort (remdups (map dm_city rows))))"
    unfolding groupby_sum_def
    by (subst sum_list_distinct_conv_sum_set [symmetric]) (simp_all add: comp_def)
  also have "\<dots> = sum_list (map dm_demand rows)"
    by (rule sum_groups) simp_all
  finally show ?thesis .
qed

subsection \<open>Rounding\<close>

lemma round2_error: "\<bar>round2 v - v\<bar> \<le> 1 / 200"
proof -
  define s where "s = v * 100"
  define f where "f = \<lfloor>s\<rfloor>"
  define d where "d = s - of_int f"
  have d0: "0 \<le> d" and d1: "d < 1" unfolding d_def f_def by linarith+
  have v: "v = (of_int f + d) / 100" unfolding d_def s_def by simp
  define rr where "rr = round2 v"
  have r: "rr = (if d < 1 / 2 then of_int f
          else if 1 / 2 < d then of_int (f + 1)
          else if even f then of_int f else of_int (f + 1)) / 100"
    unfolding rr_def round2_def Let_def d_def f_def s_def by simp
  have "\<bar>rr - v\<bar> \<le> 1 / 200"
    unfolding r v using d0 d1 by (auto simp: field_simps abs_if)
  then show ?thesis unfolding rr_def .
qed

subsection \<open>Expressions and constraints\<close>

lemma value_of_var_term [simp]: "value_of (var_term k v) a = k * a v"
  by (simp add: value_of_def var_term_def)

lemma value_of_num [simp]: "value_of (num k) a = k"
  by (simp add: value_of_def num_def)

lemma value_of_plus_expr [simp]:
  "value_of (plus_expr e1 e2) a = value_of e1 a + value_of e2 a"
  by (simp add: value_of_def plus_expr_def)

lemma value_of_lpSum [simp]:
  "value_of (lpSum es) a = sum_list (map (\<lambda>e. value_of e a) es)"
  by (induction es) (simp_all add: value_of_def lpSum_def)

lemma holds_demand_constraint:
  "holds (demand_constraint ws c d) a \<longleftrightarrow> sum_list (map (\<lambda>w. a (shipment (w, c))) ws) = d"
  by (simp add: holds_def demand_constraint_def comp_def)

lemma holds_capacity_constraint:
  "holds (capacity_constraint M w c) a \<longleftrightarrow> a (shipment (w, c)) \<le> M * a (warehouse_open w)"
  by (simp add: holds_def capacity_constraint_def)

lemma holds_max_warehouses_constraint:
  "holds (max_warehouses_constraint ws n) a \<longleftrightarrow>
     sum_list (map (\<lambda>w. a (warehouse_open w)) ws) \<le> of_int n"
  by (simp add: holds_def max_warehouses_constraint_def comp_def)

lemmas constraint_defs = demand_constraint_def capacity_constraint_def max_warehouses_constraint_def

subsection \<open>The built model\<close>

lemma load_data_fields [simp]:
  "warehouses (load_data wdf ddf mdf) = map wh_warehouse wdf"
  "warehouse_df (load_data wdf ddf mdf) = wdf"
  "demand_df (load_data wdf ddf mdf) = ddf"
  "distance_df (load_data wdf ddf mdf) = mdf"
  "solution (load_data wdf ddf mdf) = None"
  "model (load_data wdf ddf mdf) = None"
  by (simp_all add: load_data_def)

lemma build_model_fields:
  assumes "build_model st cap flt = Inr st'"
  shows "warehouses st' = warehouses st"
    and "warehouse_df st' = warehouse_df st"
    and "demand_df st' = demand_df st"
    and "distance_df st' = distance_df st"
    and "solution st' = solution st"
    and "var_value st' = (\<lambda>_. None)"
    and "demand_dict st' = groupby_sum (filter (\<lambda>r. dm_service_level r = flt) (demand_df st))"
    and "cost_dict st' =
           dict_of (map (\<lambda>r. ((ds_warehouse r, ds_customer_city r), ds_transport_cost_per_shipment r))
                        (filter (\<lambda>r. ds_service_level r = flt) (distance_df st)))"
    and "fixed_cost_dict st' =
           dict_of (zip (map wh_warehouse (warehouse_df st))
                        (map wh_fixed_cost_annual (warehouse_df st)))"
    and "y st' = dict_keys (warehouses st)"
    and "x st' = dict_keys (concat (map (\<lambda>w. map (\<lambda>c. (w, c)) (map fst (demand_dict st')))
                                        (warehouses st)))"
  using assms unfolding build_model_def Let_def
  by (auto split: sum.splits)

lemma build_model_model:
  assumes "build_model st cap flt = Inr st'"
  shows "\<exists>p fts. model st' = Some p \<and> fixed_terms (fixed_cost_dict st') (warehouses st) = Inr fts \<and>
           objective p =
             plus_expr (lpSum fts)
               (lpSum (map (\<lambda>(w, c). var_term (dict_get (cost_dict st') (w, c) 0) (shipment (w, c)))
                  (concat (map (\<lambda>w. map (\<lambda>c. (w, c)) (map fst (demand_dict st')))
                                        (warehouses st))))) \<and>
           constraints p =
             map (\<lambda>(c, d). demand_constraint (warehouses st) c d) (demand_dict st') @
             concat (map (\<lambda>w. map (\<lambda>c. capacity_constraint (sum_list (map snd (demand_dict st'))) w c)
                                   (map fst (demand_dict st'))) (warehouses st)) @
             (case cap of None \<Rightarrow> []
              | Some n \<Rightarrow> if n \<noteq> 0 then [max_warehouses_constraint (warehouses st) n] else []) \<and>
           binaries p = map warehouse_open (y st') \<and>
           continuous_lb0 p = map shipment (x st')"
  using assms unfolding build_model_def Let_def
  by (auto split: sum.splits)

lemma build_model_succeeds:
  assumes "warehouses st = map wh_warehouse (warehouse_df st)"
  shows "\<exists>st'. build_model st cap flt = Inr st'"
proof -
  have "\<forall>w \<in> set (warehouses st).
          dict_of (zip (map wh_warehouse (warehouse_df st))
                       (map wh_fixed_cost_annual (warehouse_df st))) w \<noteq> None"
    unfolding assms by (intro ballI dict_of_zip_defined)
  from fixed_terms_Inr [OF this] show ?thesis
    unfolding build_model_def Let_def by simp
qed

lemma build_model_cap_zero: "build_model st (Some 0) flt = build_model st None flt"
  by (simp add: build_model_def Let_def cong: sum.case_cong)

lemma fixed_defined:
  assumes build: "build_model st0 cap flt = Inr st"
    and ld: "warehouses st0 = map wh_warehouse (warehouse_df st0)"
  shows "\<forall>w \<in> set (warehouses st0). fixed_cost_dict st w \<noteq> None"
  unfolding build_model_fields(9) [OF build] ld by (intro ballI dict_of_zip_defined)

lemma constraints_built:
  assumes build: "build_model (load_data wdf ddf mdf) cap flt = Inr st"
    and p: "model st = Some p"
  shows "constraints p =
           map (\<lambda>(c, d). demand_constraint (map wh_warehouse wdf) c d) (demand_dict st) @
           concat (map (\<lambda>w. map (\<lambda>c. capacity_constraint (sum_list (map snd (demand_dict st))) w c)
                                 (map fst (demand_dict st))) (map wh_warehouse wdf)) @
           (case cap of None \<Rightarrow> []
            | Some n \<Rightarrow> if n \<noteq> 0 then [max_warehouses_constraint (map wh_warehouse wdf) n] else [])"
    and "binaries p = map warehouse_open (y st)"
    and "continuous_lb0 p = map shipment (x st)"
  using build_model_model [OF build] p by (auto split: option.splits)

lemma demand_dict_mem:
  assumes build: "build_model (load_data wdf ddf mdf) cap flt = Inr st"
    and r: "r \<in> set ddf" "dm_service_level r = flt"
    and d: "d = sum_list (map dm_demand
                 (filter (\<lambda>q. dm_service_level q = flt \<and> dm_city q = dm_city r) ddf))"
  shows "(dm_city r, d) \<in> set (demand_dict st)"
proof -
  let ?rows = "filter (\<lambda>q. dm_service_level q = flt) ddf"
  have dd: "demand_dict st = groupby_sum ?rows"
    using build_model_fields(7) [OF build] by simp
  have "filter (\<lambda>q. dm_city q = dm_city r) ?rows =
        filter (\<lambda>q. dm_service_level q = flt \<and> dm_city q = dm_city r) ddf"
    by (simp add: conj_commute)
  moreover have "dm_city r \<in> dm_city ` set ?rows" using r by auto
  ultimately show ?thesis
    unfolding dd set_groupby_sum d by (simp add: image_iff)
qed

lemma x_built:
  assumes build: "build_model (load_data wdf ddf mdf) cap flt = Inr st"
  shows "set (x st) = set (map wh_warehouse wdf) \<times> fst ` set (demand_dict st)"
    and "distinct (x st)"
  using build_model_fields(11) [OF build] by auto

lemma x_built_distinct:
  assumes build: "build_model (load_data wdf ddf mdf) cap flt = Inr st"
    and dist: "distinct (map wh_warehouse wdf)"
  shows "x st = concat (map (\<lambda>w. map (\<lambda>c. (w, c)) (map fst (demand_dict st))) (map wh_warehouse wdf))"
proof -
  have "distinct (map fst (demand_dict st))"
    using build_model_fields(7) [OF build] distinct_keys_groupby_sum by simp
  from distinct_pairs [OF dist this] build_model_fields(11) [OF build]
  show ?thesis by (simp add: dict_keys_distinct)
qed

lemma objective_built:
  assumes build: "build_model (load_data wdf ddf mdf) cap flt = Inr st"
    and p: "model st = Some p"
  shows "value_of (objective p) a =
           sum_list (map (\<lambda>w. dict_get (fixed_cost_dict st) w 0 * a (warehouse_open w))
                         (map wh_warehouse wdf)) +
           sum_list (map (\<lambda>k. dict_get (cost_dict st) k 0 * a (shipment k))
              (concat (map (\<lambda>w. map (\<lambda>c. (w, c)) (map fst (demand_dict st)))
                           (map wh_warehouse wdf))))"
proof -
  let ?ws = "map wh_warehouse wdf"
  have def: "\<forall>w \<in> set ?ws. fixed_cost_dict st w \<noteq> None"
    using fixed_defined [OF build] by simp
  obtain q fts where q: "model st = Some q"
    and fts: "fixed_terms (fixed_cost_dict st) (warehouses (load_data wdf ddf mdf)) = Inr fts"
    and obj: "objective q =
             plus_expr (lpSum fts)
               (lpSum (map (\<lambda>(w, c). var_term (dict_get (cost_dict st) (w, c) 0) (shipment (w, c)))
                  (concat (map (\<lambda>w. map (\<lambda>c. (w, c)) (map fst (demand_dict st)))
                                        (warehouses (load_data wdf ddf mdf))))))"
    using build_model_model [OF build] by blast
  from q p have qp: "q = p" by simp
  have fts': "fts = map (\<lambda>w. var_term (dict_get (fixed_cost_dict st) w 0) (warehouse_open w)) ?ws"
    using fts fixed_terms_Inr [OF def] by simp
  show ?thesis
    unfolding qp [symmetric] obj fts'
    by (simp add: comp_def case_prod_beta)
qed

subsection \<open>Extraction\<close>

lemma open_list_Inr:
  "\<forall>w \<in> set ws. vv (warehouse_open w) = Some (a (warehouse_open w)) \<Longrightarrow>
   open_list vv ws = Inr (filter (\<lambda>w. 0.5 < a (warehouse_open w)) ws)"
  by (induction ws) auto

lemma open_list_None:
  "w \<in> set ws \<Longrightarrow> vv (warehouse_open w) = None \<Longrightarrow> open_list vv ws = Inl TypeError"
  by (induction ws) (auto split: option.splits)

lemma open_list_defined:
  "open_list vv ws = Inr os \<Longrightarrow> \<forall>w \<in> set ws. vv (warehouse_open w) \<noteq> None"
  by (induction ws arbitrary: os) (auto split: option.splits sum.splits)

lemma collect_routes_Inr:
  "\<forall>k \<in> set ks. var_value st (shipment k) = Some (a (shipment k)) \<Longrightarrow>
   collect_routes st ks =
     Inr (map (\<lambda>k. route_of st k (a (shipment k))) (filter (\<lambda>k. 0.01 < a (shipment k)) ks))"
  by (induction ks) auto

lemma collect_routes_defined:
  "collect_routes st ks = Inr rs \<Longrightarrow> \<forall>k \<in> set ks. var_value st (shipment k) \<noteq> None"
  by (induction ks arbitrary: rs) (auto split: option.splits sum.splits)

lemma value_acc_Some:
  "\<forall>v \<in> snd ` set ts. vv v = Some (a v) \<Longrightarrow>
   value_acc s ts vv = Some (s + sum_list (map (\<lambda>(k, v). k * a v) ts))"
  by (induction ts arbitrary: s) (auto simp: algebra_simps)

lemma lp_value_Some:
  "\<forall>v \<in> set (variables_of e). vv v = Some (a v) \<Longrightarrow> lp_value e vv = Some (value_of e a)"
  using value_acc_Some [of "terms e" vv a "const e"]
  by (simp add: lp_value_def value_of_def variables_of_def)

lemma variables_of_simps [simp]:
  "variables_of (var_term k v) = (if k = 0 then [] else [v])"
  "variables_of (num c) = []"
  "variables_of (plus_expr e1 e2) = variables_of e1 @ variables_of e2"
  by (simp_all add: variables_of_def var_term_def num_def plus_expr_def)

lemma variables_of_lpSum [simp]: "variables_of (lpSum es) = concat (map variables_of es)"
  by (induction es) (simp_all add: variables_of_def lpSum_def)

lemma extract_solution_Inr:
  assumes ex: "extract_solution st = Inr st'"
    and ext: "\<forall>v r. var_value st v = Some r \<longrightarrow> a v = r"
  shows "\<exists>p f. model st = Some p \<and>
           (\<forall>w \<in> set (warehouses st). var_value st (warehouse_open w) = Some (a (warehouse_open w))) \<and>
           (\<forall>k \<in> set (x st). var_value st (shipment k) = Some (a (shipment k))) \<and>
           sum_fixed (fixed_cost_dict st)
             (filter (\<lambda>w. 0.5 < a (warehouse_open w)) (warehouses st)) = Inr f \<and>
           filter (\<lambda>k. 0.01 < a (shipment k)) (x st) \<noteq> [] \<and>
           st' = st \<lparr> solution := Some
              \<lparr> open_warehouses = filter (\<lambda>w. 0.5 < a (warehouse_open w)) (warehouses st),
                num_warehouses =
                  length (filter (\<lambda>w. 0.5 < a (warehouse_open w)) (warehouses st)),
                routes = map (\<lambda>k. route_of st k (a (shipment k)))
                             (filter (\<lambda>k. 0.01 < a (shipment k)) (x st)),
                total_cost = f + sum_list (map r_total_cost
                     (map (\<lambda>k. route_of st k (a (shipment k)))
                          (filter (\<lambda>k. 0.01 < a (shipment k)) (x st)))),
                fixed_cost = f,
                variable_cost = sum_list (map r_total_cost
                     (map (\<lambda>k. route_of st k (a (shipment k)))
                          (filter (\<lambda>k. 0.01 < a (shipment k)) (x st)))),
                objective_value = lp_value (objective p) (var_value st) \<rparr> \<rparr>"
proof -
  from ex obtain p opens rs where p: "model st = Some p"
    and ol: "open_list (var_value st) (warehouses st) = Inr opens"
    and cr: "collect_routes st (x st) = Inr rs"
    by (auto simp: extract_solution_def split: option.splits sum.splits)
  from open_list_defined [OF ol] ext
  have ys: "\<forall>w \<in> set (warehouses st). var_value st (warehouse_open w) = Some (a (warehouse_open w))"
    by fastforce
  from collect_routes_defined [OF cr] ext
  have xs: "\<forall>k \<in> set (x st). var_value st (shipment k) = Some (a (shipment k))"
    by fastforce
  from ex p show ?thesis
    unfolding extract_solution_def Let_def open_list_Inr [OF ys] collect_routes_Inr [OF xs]
    using ys xs by (auto split: sum.splits if_splits)
qed

lemma extracted_fields:
  assumes build: "build_model (load_data wdf ddf mdf) cap flt = Inr st"
    and ex: "extract_solution (st \<lparr>var_value := vv\<rparr>) = Inr st'"
    and ext: "\<forall>v r. vv v = Some r \<longrightarrow> a v = r"
    and s: "solution st' = Some s"
  shows "open_warehouses s = filter (\<lambda>w. 0.5 < a (warehouse_open w)) (map wh_warehouse wdf)"
    and "routes s =
           map (\<lambda>k. \<lparr> r_warehouse = fst k, r_customer = snd k,
                      r_shipments = round2 (a (shipment k)),
                      r_cost_per_shipment = dict_get (cost_dict st) k 0,
                      r_total_cost = round2 (a (shipment k) * dict_get (cost_dict st) k 0) \<rparr>)
               (filter (\<lambda>k. 0.01 < a (shipment k)) (x st))"
    and "\<forall>w \<in> set (map wh_warehouse wdf). vv (warehouse_open w) = Some (a (warehouse_open w))"
    and "\<forall>k \<in> set (x st). vv (shipment k) = Some (a (shipment k))"
proof -
  have ws: "warehouses st = map wh_warehouse wdf"
    using build_model_fields(1) [OF build] by simp
  have ext': "\<forall>v r. var_value (st \<lparr>var_value := vv\<rparr>) v = Some r \<longrightarrow> a v = r"
    using ext by simp
  note e = extract_solution_Inr [OF ex ext']
  from e s ws
  show "open_warehouses s = filter (\<lambda>w. 0.5 < a (warehouse_open w)) (map wh_warehouse wdf)"
    by auto
  from e s
  show "routes s =
           map (\<lambda>k. \<lparr> r_warehouse = fst k, r_customer = snd k,
                      r_shipments = round2 (a (shipment k)),
                      r_cost_per_shipment = dict_get (cost_dict st) k 0,
                      r_total_cost = round2 (a (shipment k) * dict_get (cost_dict st) k 0) \<rparr>)
               (filter (\<lambda>k. 0.01 < a (shipment k)) (x st))"
    by (auto simp: route_of_def)
  from e ws
  show "\<forall>w \<in> set (map wh_warehouse wdf). vv (warehouse_open w) = Some (a (warehouse_open w))"
    by auto
  from e show "\<forall>k \<in> set (x st). vv (shipment k) = Some (a (shipment k))"
    by auto
qed

lemma objective_variables_built:
  assumes build: "build_model (load_data wdf ddf mdf) cap flt = Inr st"
    and p: "model st = Some p"
  shows "set (variables_of (objective p)) \<subseteq>
           warehouse_open ` set (map wh_warehouse wdf) \<union> shipment ` set (x st)"
proof -
  have def: "\<forall>w \<in> set (map wh_warehouse wdf). fixed_cost_dict st w \<noteq> None"
    using fixed_defined [OF build] by simp
  obtain q fts where q: "model st = Some q"
    and fts: "fixed_terms (fixed_cost_dict st) (warehouses (load_data wdf ddf mdf)) = Inr fts"
    and obj: "objective q =
             plus_expr (lpSum fts)
               (lpSum (map (\<lambda>(w, c). var_term (dict_get (cost_dict st) (w, c) 0) (shipment (w, c)))
                  (concat (map (\<lambda>w. map (\<lambda>c. (w, c)) (map fst (demand_dict st)))
                                        (warehouses (load_data wdf ddf mdf))))))"
    using build_model_model [OF build] by blast
  from q p have qp: "q = p" by simp
  have fts': "fts = map (\<lambda>w. var_term (dict_get (fixed_cost_dict st) w 0) (warehouse_open w))
                        (map wh_warehouse wdf)"
    using fts fixed_terms_Inr [OF def] by simp
  show ?thesis
    unfolding qp [symmetric] obj fts' using x_built(1) [OF build]
    by (auto split: if_splits)
qed

lemma shipment_variables_built:
  assumes build: "build_model (load_data wdf ddf mdf) cap flt = Inr st"
    and p: "model st = Some p"
    and k: "k \<in> set (x st)"
  shows "shipment k \<in> set (variables p)"
proof -
  obtain w c where wc: "k = (w, c)" by (cases k)
  from k x_built(1) [OF build] wc obtain d where
    w: "w \<in> set (map wh_warehouse wdf)" and cd: "(c, d) \<in> set (demand_dict st)"
    by auto
  from cd have "demand_constraint (map wh_warehouse wdf) c d \<in> set (constraints p)"
    unfolding constraints_built(1) [OF build p] by (force simp: image_iff)
  moreover from w have "shipment (w, c) \<in> set (variables_of (c_lhs (demand_constraint (map wh_warehouse wdf) c d)))"
    by (auto simp: demand_constraint_def)
  ultimately show ?thesis
    unfolding variables_def wc by auto
qed

lemma warehouse_open_variables_built:
  assumes build: "build_model (load_data wdf ddf mdf) cap flt = Inr st"
    and p: "model st = Some p"
    and w: "w \<in> set (map wh_warehouse wdf)"
  shows "warehouse_open w \<in> set (variables p) \<longleftrightarrow>
           dict_get (fixed_cost_dict st) w 0 \<noteq> 0 \<or>
           (demand_dict st \<noteq> [] \<and> sum_list (map snd (demand_dict st)) \<noteq> 0) \<or>
           (\<exists>n. cap = Some n \<and> n \<noteq> 0)"
proof -
  have def: "\<forall>w \<in> set (map wh_warehouse wdf). fixed_cost_dict st w \<noteq> None"
    using fixed_defined [OF build] by simp
  obtain q fts where q: "model st = Some q"
    and fts: "fixed_terms (fixed_cost_dict st) (warehouses (load_data wdf ddf mdf)) = Inr fts"
    and obj: "objective q =
             plus_expr (lpSum fts)
               (lpSum (map (\<lambda>(w, c). var_term (dict_get (cost_dict st) (w, c) 0) (shipment (w, c)))
                  (concat (map (\<lambda>w. map (\<lambda>c. (w, c)) (map fst (demand_dict st)))
                                        (warehouses (load_data wdf ddf mdf))))))"
    using build_model_model [OF build] by blast
  from q p have qp: "q = p" by simp
  have fts': "fts = map (\<lambda>w. var_term (dict_get (fixed_cost_dict st) w 0) (warehouse_open w))
                        (map wh_warehouse wdf)"
    using fts fixed_terms_Inr [OF def] by simp
  have o: "warehouse_open w \<in> set (variables_of (objective p)) \<longleftrightarrow>
           dict_get (fixed_cost_dict st) w 0 \<noteq> 0"
    unfolding qp [symmetric] obj fts' using w by (auto split: if_splits)
  have c: "warehouse_open w \<in> set (concat (map (\<lambda>c. variables_of (c_lhs c) @ variables_of (c_rhs c))
                                                  (constraints p))) \<longleftrightarrow>
           (demand_dict st \<noteq> [] \<and> sum_list (map snd (demand_dict st)) \<noteq> 0) \<or>
           (\<exists>n. cap = Some n \<and> n \<noteq> 0)"
    unfolding constraints_built(1) [OF build p] using w
    by (cases "demand_dict st")
       (auto simp: demand_constraint_def capacity_constraint_def max_warehouses_constraint_def
             split: if_splits option.splits)
  show ?thesis unfolding variables_def using o c by auto
qed

subsection \<open>The first minimum and the sweep\<close>

lemma idxmin_scan_first_min:
  assumes "length pre = i" "best < i" "pre ! best = bv"
    and "\<forall>j<i. bv \<le> pre ! j" and "\<forall>j<best. bv < pre ! j"
  shows "idxmin_scan vs i best bv < length (pre @ vs) \<and>
         (\<forall>j<length (pre @ vs). (pre @ vs) ! idxmin_scan vs i best bv \<le> (pre @ vs) ! j) \<and>
         (\<forall>j<idxmin_scan vs i best bv. (pre @ vs) ! idxmin_scan vs i best bv < (pre @ vs) ! j)"
  using assms
proof (induction vs arbitrary: pre i best bv)
  case Nil
  then show ?case by auto
next
  case (Cons v vs)
  let ?pre = "pre @ [v]"
  show ?case
  proof (cases "v < bv")
    case True
    have "length ?pre = Suc i" "i < Suc i" "?pre ! i = v"
      using Cons.prems(1) by (simp_all add: nth_append)
    moreover have lower: "\<forall>j<i. v < pre ! j"
    proof (intro allI impI)
      fix j assume "j < i"
      with Cons.prems(4) have "bv \<le> pre ! j" by simp
      with True show "v < pre ! j" by simp
    qed
    then have "\<forall>j<Suc i. v \<le> ?pre ! j"
      using Cons.prems(1) by (auto simp: nth_append less_Suc_eq intro: less_imp_le)
    moreover have "\<forall>j<i. v < ?pre ! j"
      using lower Cons.prems(1) by (auto simp: nth_append)
    ultimately show ?thesis
      using Cons.IH [of ?pre "Suc i" i v] True by simp
  next
    case False
    have "length ?pre = Suc i" "best < Suc i" "?pre ! best = bv"
      using Cons.prems by (simp_all add: nth_append)
    moreover have "\<forall>j<Suc i. bv \<le> ?pre ! j"
      using Cons.prems False by (auto simp: nth_append less_Suc_eq)
    moreover have "\<forall>j<best. bv < ?pre ! j"
      using Cons.prems by (auto simp: nth_append)
    ultimately show ?thesis
      using Cons.IH [of ?pre "Suc i" best bv] False by simp
  qed
qed

lemma idxmin_first_min:
  assumes "vs \<noteq> []"
  shows "idxmin vs < length vs \<and> (\<forall>j<length vs. vs ! idxmin vs \<le> vs ! j) \<and>
         (\<forall>j<idxmin vs. vs ! idxmin vs < vs ! j)"
proof -
  from assms obtain v rest where vs: "vs = v # rest" by (cases vs) auto
  have "idxmin vs = idxmin_scan rest 1 0 v" by (simp add: idxmin_def vs)
  moreover have "[v] @ rest = vs" by (simp add: vs)
  ultimately show ?thesis
    using idxmin_scan_first_min [of "[v]" 1 0 v rest] by simp
qed

lemma sweep_caps:
  assumes "sweep slv st ns acc = Inr (st', df)" and "sorted_wrt (<) ns"
  shows "\<exists>ms. df = acc @ ms \<and> set (map sc_max_warehouses ms) \<subseteq> set ns \<and>
              sorted_wrt (<) (map sc_max_warehouses ms)"
  using assms
proof (induction ns arbitrary: st acc)
  case Nil
  then show ?case by simp
next
  case (Cons n ns)
  from Cons.prems(1) obtain st1 st2 r where
    rest: "sweep slv st2 ns (case solution st2 of Some s \<Rightarrow> acc @ [scenario_of n s] | None \<Rightarrow> acc)
             = Inr (st', df)"
    by (auto split: sum.splits)
  from Cons.prems(2) have sorted: "sorted_wrt (<) ns" and lt: "\<forall>m \<in> set ns. n < m" by auto
  from Cons.IH [OF rest sorted] obtain ms where
    ms: "df = (case solution st2 of Some s \<Rightarrow> acc @ [scenario_of n s] | None \<Rightarrow> acc) @ ms"
      "set (map sc_max_warehouses ms) \<subseteq> set ns" "sorted_wrt (<) (map sc_max_warehouses ms)"
    by blast
  show ?case
  proof (cases "solution st2")
    case None
    with ms show ?thesis by auto
  next
    case (Some s)
    with ms lt have "df = acc @ (scenario_of n s # ms)"
      "set (map sc_max_warehouses (scenario_of n s # ms)) \<subseteq> set (n # ns)"
      "sorted_wrt (<) (map sc_max_warehouses (scenario_of n s # ms))"
      by (auto simp: scenario_of_def)
    then show ?thesis by blast
  qed
qed

subsection \<open>The small instances\<close>

lemmas ex_defs = ex_warehouse_df_def ex_demand_df_def ex_distance_df_def ex_eighth_distance_df_def
  demand_of_def cost_of_def ex_values_def ex_solver_def ex_zero_demand_df_def ex_zero_solver_def

lemmas ex2_defs = ex_two_demand_df_def ex_two_distance_df_def ex_two_values_def ex_two_solver_def
  ex_fraction_demand_df_def ex_fraction_values_def ex_fraction_solver_def

lemmas run_defs = run_optimization_def load_data_def build_model_def groupby_sum_def dict_of_def
  dict_get_def solve_def extract_solution_def route_of_def Let_def
  lpSum_def plus_expr_def var_term_def num_def value_of_def lp_value_def variables_def
  variables_of_def

lemma ex_tables_simps:
  "map wh_warehouse ex_warehouse_df = [''A'']"
  "filter (\<lambda>r. dm_service_level r = ''Standard'') ex_demand_df = ex_demand_df"
  "filter (\<lambda>r. dm_service_level r = ''Standard'') ex_zero_demand_df = ex_zero_demand_df"
  "groupby_sum ex_demand_df = [(''X'', 10)]"
  "groupby_sum ex_zero_demand_df = [(''X'', 0)]"
  by (simp_all add: ex_warehouse_df_def ex_demand_df_def ex_zero_demand_df_def demand_of_def
      groupby_sum_def)

lemma ex_cost_simps:
  "filter (\<lambda>r. ds_service_level r = ''Standard'') ex_distance_df = ex_distance_df"
  "dict_of (map (\<lambda>r. ((ds_warehouse r, ds_customer_city r), ds_transport_cost_per_shipment r))
                ex_distance_df) (''A'', ''X'') = Some 2"
  "dict_of (zip (map wh_warehouse ex_warehouse_df) (map wh_fixed_cost_annual ex_warehouse_df)) ''A''
     = Some 100"
  "dict_of (zip [''A''] (map wh_fixed_cost_annual ex_warehouse_df)) ''A'' = Some 100"
  by (simp_all add: ex_distance_df_def cost_of_def ex_warehouse_df_def dict_of_def)

lemma ex_built:
  "\<exists>st p. build_model (load_data ex_warehouse_df ex_demand_df ex_distance_df) None ''Standard''
            = Inr st \<and> model st = Some p \<and> feasible p ex_values \<and>
     (\<exists>st' s. extract_solution (st \<lparr>var_value := (\<lambda>v. Some (ex_values v))\<rparr>) = Inr st' \<and>
              solution st' = Some s \<and> routes s \<noteq> [])"
  by (simp add: run_defs ex_defs round2_def feasible_def holds_def demand_constraint_def
      capacity_constraint_def)

lemma ex_two_built:
  "\<exists>st p st' s.
     build_model (load_data ex_warehouse_df ex_two_demand_df ex_two_distance_df) None ''Standard''
       = Inr st \<and> model st = Some p \<and>
     extract_solution (st \<lparr>var_value := (\<lambda>v. Some (ex_two_values v))\<rparr>) = Inr st' \<and>
     solution st' = Some s \<and>
     list_all (\<lambda>v. ex_two_values v = 0 \<or> ex_two_values v = 1) (binaries p) \<and>
     total_cost s = 120 \<and> objective_value s = Some 130 \<and> length (routes s) = 1"
  by (simp add: run_defs ex_defs ex2_defs round2_def)

lemma ex_fraction_built:
  "\<exists>st p st' s.
     build_model (load_data ex_warehouse_df ex_fraction_demand_df ex_distance_df) None ''Standard''
       = Inr st \<and> model st = Some p \<and> feasible p ex_fraction_values \<and>
     extract_solution (st \<lparr>var_value := (\<lambda>v. Some (ex_fraction_values v))\<rparr>) = Inr st' \<and>
     solution st' = Some s \<and> map r_shipments (routes s) = [10]"
  by (simp add: run_defs ex_defs ex2_defs round2_def feasible_def holds_def constraint_defs)

lemma ex_compare:
  "\<exists>st' df. compare_scenarios ex_solver (load_data ex_warehouse_df ex_demand_df ex_distance_df)
     = Inr (st', df, \<lparr> sc_max_warehouses = 2, sc_actual_warehouses = 1, sc_total_cost = 120,
         sc_fixed_cost = 100, sc_variable_cost = 20 \<rparr>) \<and>
      map sc_max_warehouses df = [2, 3, 4, 5, 6, 7, 8] \<and>
      map sc_total_cost df = [120, 120, 120, 120, 120, 120, 120]"
  by (simp add: compare_scenarios_def idxmin_def scenario_of_def run_defs ex_defs round2_def)

section \<open>Properties\<close>

subsection \<open>A cap of zero\<close>

text \<open>
  C1. A cap of 0 is dropped by \<open>if max_warehouses:\<close>, so the model is the one built
  without a cap. On the small instance, whose customer has demand 10, that model has
  only the demand and the capacity constraint, the assignment that opens \<open>A\<close> and
  ships 10 is feasible for it, and with that answer of the solver the run returns a
  solution of cost 120 with \<open>A\<close> open.
\<close>

theorem cap_zero_is_ignored:
  "build_model (load_data ex_warehouse_df ex_demand_df ex_distance_df) (Some 0) ''Standard'' =
   build_model (load_data ex_warehouse_df ex_demand_df ex_distance_df) None ''Standard'' \<and>
   (case run_optimization ex_solver ex_warehouse_df ex_demand_df ex_distance_df (Some 0) ''Standard'' of
      Inr (st, Some s) \<Rightarrow>
        (case model st of
           Some p \<Rightarrow> feasible p ex_values \<and> map c_name (constraints p) = [''Demand_X'', ''Capacity_A_X'']
         | None \<Rightarrow> False) \<and>
        open_warehouses s = [''A''] \<and> total_cost s = 120
    | _ \<Rightarrow> False)"
  by (simp add: build_model_cap_zero)
     (simp add: run_defs ex_defs round2_def feasible_def holds_def constraint_defs)

subsection \<open>A failed solve inside the sweep\<close>

text \<open>
  C2. \<open>compare_scenarios\<close> drops the result of \<open>solve\<close> and tests \<open>self.solution\<close>,
  which a failed solve leaves as the previous cap left it. With a solver that ends
  \<open>Not Solved\<close> on the model capped at 3, the table still has a row for cap 3, filled
  with the values of the solution found for cap 2.
\<close>

theorem stale_record_after_failed_solve:
  "(case build_model (load_data ex_warehouse_df ex_demand_df ex_distance_df) (Some 3) ''Standard'' of
      Inr st \<Rightarrow> (case model st of Some p \<Rightarrow> fst (ex_timeout_solver p 60) = Not_Solved | None \<Rightarrow> False)
    | Inl e \<Rightarrow> False) \<and>
   (case compare_scenarios ex_timeout_solver (load_data ex_warehouse_df ex_demand_df ex_distance_df) of
      Inr (st', df, opt) \<Rightarrow>
        map sc_max_warehouses df = [2, 3, 4, 5, 6, 7, 8] \<and>
        df ! 1 = \<lparr> sc_max_warehouses = 3, sc_actual_warehouses = 1, sc_total_cost = 120,
                   sc_fixed_cost = 100, sc_variable_cost = 20 \<rparr>
    | Inl e \<Rightarrow> False)"
  by (simp add: compare_scenarios_def idxmin_def scenario_of_def run_defs ex_defs round2_def
      ex_timeout_solver_def constraint_defs)

subsection \<open>The demand constraints\<close>

text \<open>
  C3. Take any customer that has a row in the demand table for the chosen service level,
  and let \<open>d\<close> be the sum of the demand of all its rows for that level. The model built
  from the tables contains the constraint named after that customer, it is an equality,
  and an assignment satisfies it exactly when the flows into the customer from all
  warehouses sum to \<open>d\<close>. This holds for every such customer, so in particular for
  those with nonzero demand.
\<close>

theorem demand_constraint_built:
  assumes build: "build_model (load_data wdf ddf mdf) cap flt = Inr st"
    and p: "model st = Some p"
    and r: "r \<in> set ddf" "dm_service_level r = flt"
    and d: "d = sum_list (map dm_demand
                 (filter (\<lambda>q. dm_service_level q = flt \<and> dm_city q = dm_city r) ddf))"
  shows "demand_constraint (map wh_warehouse wdf) (dm_city r) d \<in> set (constraints p) \<and>
         c_sense (demand_constraint (map wh_warehouse wdf) (dm_city r) d) = EQ \<and>
         (\<forall>a. holds (demand_constraint (map wh_warehouse wdf) (dm_city r) d) a \<longleftrightarrow>
              sum_list (map (\<lambda>w. a (shipment (w, dm_city r))) (map wh_warehouse wdf)) = d)"
proof -
  have "(dm_city r, d) \<in> set (demand_dict st)"
    by (rule demand_dict_mem [OF build r d])
  then have "demand_constraint (map wh_warehouse wdf) (dm_city r) d \<in> set (constraints p)"
    unfolding constraints_built(1) [OF build p] by (force simp: image_iff)
  then show ?thesis
    by (simp add: holds_demand_constraint) (simp add: demand_constraint_def)
qed

theorem demand_constraint_built_witness:
  "\<exists>st p. build_model (load_data ex_warehouse_df ex_demand_df ex_distance_df) None ''Standard''
            = Inr st \<and>
          model st = Some p \<and>
          demand_of ''X'' 10 \<in> set ex_demand_df \<and>
          dm_service_level (demand_of ''X'' 10) = ''Standard'' \<and>
          demand_constraint [''A''] ''X'' 10 \<in> set (constraints p) \<and>
          c_sense (demand_constraint [''A''] ''X'' 10) = EQ"
proof -
  obtain st where b:
    "build_model (load_data ex_warehouse_df ex_demand_df ex_distance_df) None ''Standard'' = Inr st"
    using build_model_succeeds [of "load_data ex_warehouse_df ex_demand_df ex_distance_df"]
    by auto
  obtain p where p: "model st = Some p"
    using build_model_model [OF b] by blast
  have r: "demand_of ''X'' 10 \<in> set ex_demand_df"
    "dm_service_level (demand_of ''X'' 10) = ''Standard''"
    by (simp_all add: ex_demand_df_def demand_of_def)
  have d: "(10::real) = sum_list (map dm_demand (filter (\<lambda>q. dm_service_level q = ''Standard'' \<and>
              dm_city q = dm_city (demand_of ''X'' 10)) ex_demand_df))"
    by (simp add: ex_demand_df_def demand_of_def)
  from demand_constraint_built [OF b p r d] b p r show ?thesis
    by (simp add: ex_tables_simps) (simp add: demand_of_def)
qed

subsection \<open>The linking constraints\<close>

text \<open>
  C4. With \<open>M\<close> the sum of all demand of the chosen service level, the built model
  contains for every warehouse and every customer of that level the constraint
  flow \<open>\<le>\<close> \<open>M\<close> times open indicator. Let the variables hold the values \<open>vv\<close>, and
  let the assignment \<open>a\<close> give every variable that has a value that value. If \<open>a\<close>
  gives every open indicator the value 0 or 1 and satisfies all constraints of the
  model, and the extraction succeeds, each route of the extracted list has a warehouse
  whose open indicator exceeds 0.5, and that warehouse is in the list of open
  warehouses.
\<close>

theorem linking:
  assumes build: "build_model (load_data wdf ddf mdf) cap flt = Inr st"
    and p: "model st = Some p"
    and M: "M = sum_list (map dm_demand (filter (\<lambda>r. dm_service_level r = flt) ddf))"
  shows "(\<forall>w \<in> set (map wh_warehouse wdf). \<forall>r \<in> set ddf. dm_service_level r = flt \<longrightarrow>
            capacity_constraint M w (dm_city r) \<in> set (constraints p) \<and>
            c_sense (capacity_constraint M w (dm_city r)) = LE \<and>
            (\<forall>a. holds (capacity_constraint M w (dm_city r)) a \<longleftrightarrow>
                 a (shipment (w, dm_city r)) \<le> M * a (warehouse_open w))) \<and>
         (\<forall>vv a st' s. list_all (\<lambda>v. a v = 0 \<or> a v = 1) (binaries p) \<longrightarrow>
            list_all (\<lambda>c. holds c a) (constraints p) \<longrightarrow>
            extract_solution (st \<lparr>var_value := vv\<rparr>) = Inr st' \<longrightarrow>
            (\<forall>v r. vv v = Some r \<longrightarrow> a v = r) \<longrightarrow>
            solution st' = Some s \<longrightarrow>
            (\<forall>r \<in> set (routes s). 0.5 < a (warehouse_open (r_warehouse r)) \<and>
                                  r_warehouse r \<in> set (open_warehouses s)))"
proof -
  let ?ws = "map wh_warehouse wdf"
  let ?M = "sum_list (map snd (demand_dict st))"
  have dd: "demand_dict st = groupby_sum (filter (\<lambda>r. dm_service_level r = flt) ddf)"
    using build_model_fields(7) [OF build] by simp
  have MM: "?M = M" unfolding M dd by (rule sum_groupby_sum)
  have keys: "fst ` set (demand_dict st) =
              dm_city ` set (filter (\<lambda>r. dm_service_level r = flt) ddf)"
    using keys_groupby_sum [of "filter (\<lambda>r. dm_service_level r = flt) ddf"] dd by simp
  note cons = constraints_built(1) [OF build p]
  note bins = constraints_built(2) [OF build p]
  have ys: "set (y st) = set ?ws"
    using build_model_fields(10) [OF build] by simp
  have cap_mem: "capacity_constraint ?M w c \<in> set (constraints p)"
    if "w \<in> set ?ws" "c \<in> fst ` set (demand_dict st)" for w c
  proof -
    from that have "capacity_constraint ?M w c \<in>
        set (concat (map (\<lambda>w. map (\<lambda>c. capacity_constraint ?M w c) (map fst (demand_dict st))) ?ws))"
      by (intro mem_concat_map_map) simp_all
    then show ?thesis unfolding cons by simp
  qed
  have part2: "0.5 < a (warehouse_open (r_warehouse r)) \<and> r_warehouse r \<in> set (open_warehouses s)"
    if bin: "list_all (\<lambda>v. a v = 0 \<or> a v = 1) (binaries p)"
      and sat: "list_all (\<lambda>c. holds c a) (constraints p)"
      and ex: "extract_solution (st \<lparr>var_value := vv\<rparr>) = Inr st'"
      and ext: "\<forall>v r. vv v = Some r \<longrightarrow> a v = r"
      and s: "solution st' = Some s" and r: "r \<in> set (routes s)" for vv a st' s r
  proof -
    from r extracted_fields(2) [OF build ex ext s]
    obtain k where k: "k \<in> set (x st)" "0.01 < a (shipment k)" "r_warehouse r = fst k"
      by auto
    obtain w c where wc: "k = (w, c)" by (cases k)
    from k(1) x_built(1) [OF build] wc
    have w: "w \<in> set ?ws" and c: "c \<in> fst ` set (demand_dict st)" by auto
    from sat cap_mem [OF w c] have "holds (capacity_constraint ?M w c) a"
      by (simp add: list_all_iff)
    then have le: "a (shipment (w, c)) \<le> ?M * a (warehouse_open w)"
      by (simp add: holds_capacity_constraint)
    from bin w ys have "a (warehouse_open w) = 0 \<or> a (warehouse_open w) = 1"
      unfolding list_all_iff bins by auto
    with le k(2) wc have one: "a (warehouse_open w) = 1" by auto
    then have "w \<in> set (open_warehouses s)"
      using w unfolding extracted_fields(1) [OF build ex ext s] by simp
    with one k(3) wc show ?thesis by simp
  qed
  have part1: "capacity_constraint M w (dm_city r) \<in> set (constraints p) \<and>
            c_sense (capacity_constraint M w (dm_city r)) = LE \<and>
            (\<forall>a. holds (capacity_constraint M w (dm_city r)) a \<longleftrightarrow>
                 a (shipment (w, dm_city r)) \<le> M * a (warehouse_open w))"
    if "w \<in> set ?ws" "r \<in> set ddf" "dm_service_level r = flt" for w r
  proof -
    from that have "dm_city r \<in> fst ` set (demand_dict st)" unfolding keys by simp
    from cap_mem [OF that(1) this] show ?thesis
      unfolding MM by (simp add: holds_capacity_constraint) (simp add: capacity_constraint_def)
  qed
  from part1 part2 show ?thesis by (intro conjI ballI allI impI) blast+
qed

theorem linking_witness:
  "\<exists>st p st' s. build_model (load_data ex_warehouse_df ex_demand_df ex_distance_df) None ''Standard''
            = Inr st \<and> model st = Some p \<and>
      capacity_constraint 10 ''A'' ''X'' \<in> set (constraints p) \<and>
      feasible p ex_values \<and>
      extract_solution (st \<lparr>var_value := (\<lambda>v. Some (ex_values v))\<rparr>) = Inr st' \<and>
      solution st' = Some s \<and> routes s \<noteq> [] \<and>
      list_all (\<lambda>r. r_warehouse r \<in> set (open_warehouses s)) (routes s)"
proof -
  from ex_built obtain st p st' s where
    b: "build_model (load_data ex_warehouse_df ex_demand_df ex_distance_df) None ''Standard'' = Inr st"
    and p: "model st = Some p" and f: "feasible p ex_values"
    and e: "extract_solution (st \<lparr>var_value := (\<lambda>v. Some (ex_values v))\<rparr>) = Inr st'"
    and s: "solution st' = Some s" and ne: "routes s \<noteq> []"
    by blast
  have M: "(10::real) = sum_list (map dm_demand
             (filter (\<lambda>r. dm_service_level r = ''Standard'') ex_demand_df))"
    by (simp add: ex_defs)
  note l = linking [OF b p M]
  have "demand_of ''X'' 10 \<in> set ex_demand_df" "dm_service_level (demand_of ''X'' 10) = ''Standard''"
    "dm_city (demand_of ''X'' 10) = ''X''" "''A'' \<in> set (map wh_warehouse ex_warehouse_df)"
    by (simp_all add: ex_defs)
  with l have c: "capacity_constraint 10 ''A'' ''X'' \<in> set (constraints p)"
    by metis
  from f have "list_all (\<lambda>v. ex_values v = 0 \<or> ex_values v = 1) (binaries p)"
    "list_all (\<lambda>c. holds c ex_values) (constraints p)"
    by (simp_all add: feasible_def)
  moreover have "\<forall>v r. (\<lambda>v. Some (ex_values v)) v = Some r \<longrightarrow> ex_values v = r"
    by simp
  ultimately have "list_all (\<lambda>r. r_warehouse r \<in> set (open_warehouses s)) (routes s)"
    using l e s unfolding list_all_iff by blast
  with b p c f e s ne show ?thesis by blast
qed

subsection \<open>The objective\<close>



subsection \<open>The cost breakdown\<close>

text \<open>
  C6, as the code has it. Let the variables hold the values \<open>vv\<close>, and let the
  assignment \<open>a\<close> give every variable that has a value that value. After a successful
  extraction the fixed-cost total is the sum
  of the fixed costs of the open warehouses (those whose indicator exceeds 0.5, not all
  candidates), the variable-cost total is the sum of the line costs of the listed
  routes, the total cost is their sum, and the objective value is the objective of the
  model at these values. When the warehouse identifiers are unique and the open
  indicators are exactly 0 or 1, the objective value differs from the total cost plus
  the transport cost of the flows not above 0.01 by at most 0.005 for every listed
  route, the rounding of its line cost.
\<close>

theorem cost_breakdown:
  assumes build: "build_model (load_data wdf ddf mdf) cap flt = Inr st"
    and p: "model st = Some p"
    and ex: "extract_solution (st \<lparr>var_value := vv\<rparr>) = Inr st'"
    and ext: "\<forall>v r. vv v = Some r \<longrightarrow> a v = r"
    and s: "solution st' = Some s"
  shows "fixed_cost s = sum_list (map (\<lambda>w. dict_get (fixed_cost_dict st) w 0) (open_warehouses s)) \<and>
         open_warehouses s = filter (\<lambda>w. 0.5 < a (warehouse_open w)) (map wh_warehouse wdf) \<and>
         variable_cost s = sum_list (map r_total_cost (routes s)) \<and>
         total_cost s = fixed_cost s + variable_cost s \<and>
         objective_value s = Some (value_of (objective p) a) \<and>
         (distinct (map wh_warehouse wdf) \<longrightarrow>
          list_all (\<lambda>v. a v = 0 \<or> a v = 1) (binaries p) \<longrightarrow>
          \<bar>value_of (objective p) a -
            (total_cost s +
             sum_list (map (\<lambda>k. dict_get (cost_dict st) k 0 * a (shipment k))
                           (filter (\<lambda>k. \<not> 0.01 < a (shipment k)) (x st))))\<bar>
            \<le> real (length (routes s)) / 200)"
proof -
  let ?ws = "map wh_warehouse wdf"
  let ?opens = "filter (\<lambda>w. 0.5 < a (warehouse_open w)) ?ws"
  let ?P = "\<lambda>k. 0.01 < a (shipment k)"
  let ?c = "\<lambda>k. dict_get (cost_dict st) k 0"
  let ?kept = "filter ?P (x st)"
  let ?st = "st \<lparr>var_value := vv\<rparr>"
  have ws: "warehouses st = ?ws"
    using build_model_fields(1) [OF build] by simp
  have ext': "\<forall>v r. var_value ?st v = Some r \<longrightarrow> a v = r"
    using ext by simp
  from extract_solution_Inr [OF ex ext'] p ws obtain f where
    f: "sum_fixed (fixed_cost_dict st) ?opens = Inr f"
    and st': "st' = ?st \<lparr> solution := Some
              \<lparr> open_warehouses = ?opens,
                num_warehouses = length ?opens,
                routes = map (\<lambda>k. route_of ?st k (a (shipment k))) ?kept,
                total_cost = f + sum_list (map r_total_cost
                     (map (\<lambda>k. route_of ?st k (a (shipment k))) ?kept)),
                fixed_cost = f,
                variable_cost = sum_list (map r_total_cost
                     (map (\<lambda>k. route_of ?st k (a (shipment k))) ?kept)),
                objective_value = lp_value (objective p) vv \<rparr> \<rparr>"
    by auto
  have def: "\<forall>w \<in> set ?ws. fixed_cost_dict st w \<noteq> None"
    using fixed_defined [OF build] by simp
  then have "\<forall>w \<in> set ?opens. fixed_cost_dict st w \<noteq> None"
    by (metis filter_is_subset subsetD)
  from sum_fixed_Inr [OF this] f
  have fval: "f = sum_list (map (\<lambda>w. dict_get (fixed_cost_dict st) w 0) ?opens)" by simp
  have "\<forall>v \<in> set (variables_of (objective p)). vv v = Some (a v)"
    using objective_variables_built [OF build p] extracted_fields(3,4) [OF build ex ext s]
    by blast
  then have ov: "lp_value (objective p) vv = Some (value_of (objective p) a)"
    by (rule lp_value_Some)
  from st' s have sv: "s = \<lparr> open_warehouses = ?opens,
                num_warehouses = length ?opens,
                routes = map (\<lambda>k. route_of ?st k (a (shipment k))) ?kept,
                total_cost = f + sum_list (map r_total_cost
                     (map (\<lambda>k. route_of ?st k (a (shipment k))) ?kept)),
                fixed_cost = f,
                variable_cost = sum_list (map r_total_cost
                     (map (\<lambda>k. route_of ?st k (a (shipment k))) ?kept)),
                objective_value = Some (value_of (objective p) a) \<rparr>"
    by (simp add: ov)
  have 1: "fixed_cost s = sum_list (map (\<lambda>w. dict_get (fixed_cost_dict st) w 0) (open_warehouses s))"
    and 2: "open_warehouses s = ?opens"
    and 3: "variable_cost s = sum_list (map r_total_cost (routes s))"
    and 4: "total_cost s = fixed_cost s + variable_cost s"
    and 5: "objective_value s = Some (value_of (objective p) a)"
    using fval by (simp_all add: sv)
  have var: "variable_cost s = sum_list (map (\<lambda>k. round2 (a (shipment k) * ?c k)) ?kept)"
    by (simp add: sv route_of_def comp_def)
  have len: "length (routes s) = length ?kept" by (simp add: sv)
  have 6: "\<bar>value_of (objective p) a -
            (total_cost s +
             sum_list (map (\<lambda>k. ?c k * a (shipment k)) (filter (\<lambda>k. \<not> ?P k) (x st))))\<bar>
            \<le> real (length (routes s)) / 200"
    if dist: "distinct ?ws" and bin: "list_all (\<lambda>v. a v = 0 \<or> a v = 1) (binaries p)"
  proof -
    have ys: "set (y st) = set ?ws"
      using build_model_fields(10) [OF build] by simp
    from bin ys constraints_built(2) [OF build p]
    have b: "\<forall>w \<in> set ?ws. a (warehouse_open w) = 0 \<or> a (warehouse_open w) = 1"
      by (simp add: list_all_iff)
    have fx: "sum_list (map (\<lambda>w. dict_get (fixed_cost_dict st) w 0 * a (warehouse_open w)) ?ws) = f"
      unfolding fval using sum_list_binary_filter [of ?ws "\<lambda>w. a (warehouse_open w)", OF b] .
    have "value_of (objective p) a = f + sum_list (map (\<lambda>k. ?c k * a (shipment k)) (x st))"
      using objective_built [OF build p, of a] fx x_built_distinct [OF build dist] by simp
    also have "sum_list (map (\<lambda>k. ?c k * a (shipment k)) (x st)) =
               sum_list (map (\<lambda>k. ?c k * a (shipment k)) ?kept) +
               sum_list (map (\<lambda>k. ?c k * a (shipment k)) (filter (\<lambda>k. \<not> ?P k) (x st)))"
      by (rule sum_list_filter_split)
    finally have obj: "value_of (objective p) a -
            (total_cost s +
             sum_list (map (\<lambda>k. ?c k * a (shipment k)) (filter (\<lambda>k. \<not> ?P k) (x st)))) =
           sum_list (map (\<lambda>k. ?c k * a (shipment k)) ?kept) -
           sum_list (map (\<lambda>k. round2 (a (shipment k) * ?c k)) ?kept)"
      using 4 var by (simp add: sv)
    have "\<forall>k \<in> set ?kept. \<bar>?c k * a (shipment k) - round2 (a (shipment k) * ?c k)\<bar> \<le> 1 / 200"
    proof
      fix k
      have "\<bar>round2 (a (shipment k) * ?c k) - a (shipment k) * ?c k\<bar> \<le> 1 / 200"
        by (rule round2_error)
      then show "\<bar>?c k * a (shipment k) - round2 (a (shipment k) * ?c k)\<bar> \<le> 1 / 200"
        by (simp only: abs_minus_commute mult.commute)
    qed
    from sum_list_abs_diff [OF this] show ?thesis
      unfolding obj len by simp
  qed
  from 1 2 3 4 5 6 show ?thesis by blast
qed

theorem cost_breakdown_witness:
  "\<exists>st p st' s.
     build_model (load_data ex_warehouse_df ex_two_demand_df ex_two_distance_df) None ''Standard''
       = Inr st \<and> model st = Some p \<and>
     extract_solution (st \<lparr>var_value := (\<lambda>v. Some (ex_two_values v))\<rparr>) = Inr st' \<and>
     solution st' = Some s \<and>
     distinct (map wh_warehouse ex_warehouse_df) \<and>
     list_all (\<lambda>v. ex_two_values v = 0 \<or> ex_two_values v = 1) (binaries p) \<and>
     total_cost s = 120 \<and> objective_value s = Some 130 \<and> length (routes s) = 1 \<and>
     total_cost s = fixed_cost s + variable_cost s \<and>
     objective_value s = Some (value_of (objective p) ex_two_values) \<and>
     \<bar>value_of (objective p) ex_two_values -
        (total_cost s +
         sum_list (map (\<lambda>k. dict_get (cost_dict st) k 0 * ex_two_values (shipment k))
                       (filter (\<lambda>k. \<not> 0.01 < ex_two_values (shipment k)) (x st))))\<bar>
        \<le> real (length (routes s)) / 200"
proof -
  from ex_two_built obtain st p st' s where
    b: "build_model (load_data ex_warehouse_df ex_two_demand_df ex_two_distance_df) None ''Standard''
       = Inr st"
    and p: "model st = Some p"
    and e: "extract_solution (st \<lparr>var_value := (\<lambda>v. Some (ex_two_values v))\<rparr>) = Inr st'"
    and s: "solution st' = Some s"
    and bin: "list_all (\<lambda>v. ex_two_values v = 0 \<or> ex_two_values v = 1) (binaries p)"
    and vals: "total_cost s = 120" "objective_value s = Some 130" "length (routes s) = 1"
    by (elim exE conjE) (rule that)
  have ext: "\<forall>v r. (\<lambda>v. Some (ex_two_values v)) v = Some r \<longrightarrow> ex_two_values v = r"
    by simp
  have d: "distinct (map wh_warehouse ex_warehouse_df)" by (simp add: ex_defs)
  note cb = cost_breakdown [OF b p e ext s]
  from cb have t: "total_cost s = fixed_cost s + variable_cost s" by blast
  from cb have o: "objective_value s = Some (value_of (objective p) ex_two_values)" by blast
  from cb d bin have
    "\<bar>value_of (objective p) ex_two_values -
        (total_cost s +
         sum_list (map (\<lambda>k. dict_get (cost_dict st) k 0 * ex_two_values (shipment k))
                       (filter (\<lambda>k. \<not> 0.01 < ex_two_values (shipment k)) (x st))))\<bar>
        \<le> real (length (routes s)) / 200"
    by blast
  with b p e s d bin vals t o show ?thesis
    by (intro exI [of _ st] exI [of _ p] exI [of _ st'] exI [of _ s] conjI)
qed

text \<open>
  The total cost need not be close to the objective value: a flow of 1/100 at a unit
  cost of 1000 is part of the objective, 130, and is not a route, so the total is 120.
\<close>

theorem total_cost_misses_small_flows:
  "(case run_optimization ex_two_solver ex_warehouse_df ex_two_demand_df ex_two_distance_df None
           ''Standard'' of
      Inr (st, Some s) \<Rightarrow>
        (case model st of Some p \<Rightarrow> feasible p ex_two_values | None \<Rightarrow> False) \<and>
        fixed_cost s = 100 \<and> variable_cost s = 20 \<and> total_cost s = 120 \<and>
        objective_value s = Some 130
    | _ \<Rightarrow> False)"
  by (simp add: run_defs ex_defs ex2_defs round2_def feasible_def holds_def constraint_defs)

subsection \<open>The extracted routes\<close>

text \<open>
  C7, as the code has it. After a model was built from the tables, let the variables
  hold the values \<open>vv\<close> and let the assignment \<open>a\<close> give every variable that has a
  value that value. A successful extraction lists as open every warehouse whose open
  indicator exceeds 0.5, and as routes every (warehouse, customer) pair of the model
  whose flow exceeds 0.01. A route carries the flow rounded to 2 decimals, the unit cost
  exactly as stored in the cost matrix (zero for an absent pair, not rounded), and the
  line cost flow times unit cost rounded to 2 decimals.
\<close>

theorem extracted_routes:
  assumes build: "build_model (load_data wdf ddf mdf) cap flt = Inr st"
    and ex: "extract_solution (st \<lparr>var_value := vv\<rparr>) = Inr st'"
    and ext: "\<forall>v r. vv v = Some r \<longrightarrow> a v = r"
    and s: "solution st' = Some s"
  shows "open_warehouses s = filter (\<lambda>w. 0.5 < a (warehouse_open w)) (map wh_warehouse wdf) \<and>
         routes s =
           map (\<lambda>k. \<lparr> r_warehouse = fst k, r_customer = snd k,
                      r_shipments = round2 (a (shipment k)),
                      r_cost_per_shipment = dict_get (cost_dict st) k 0,
                      r_total_cost = round2 (a (shipment k) * dict_get (cost_dict st) k 0) \<rparr>)
               (filter (\<lambda>k. 0.01 < a (shipment k)) (x st)) \<and>
         set (x st) = set (map wh_warehouse wdf) \<times> fst ` set (demand_dict st) \<and>
         distinct (x st)"
  using extracted_fields(1,2) [OF build ex ext s] x_built [OF build] by simp

theorem extracted_routes_witness:
  "\<exists>st st' s. build_model (load_data ex_warehouse_df ex_demand_df ex_distance_df) None ''Standard''
            = Inr st \<and>
      extract_solution (st \<lparr>var_value := (\<lambda>v. Some (ex_values v))\<rparr>) = Inr st' \<and>
      solution st' = Some s \<and>
      open_warehouses s = [''A''] \<and>
      routes s = [\<lparr> r_warehouse = ''A'', r_customer = ''X'', r_shipments = 10,
                    r_cost_per_shipment = 2, r_total_cost = 20 \<rparr>]"
proof -
  from ex_built obtain st st' s where
    b: "build_model (load_data ex_warehouse_df ex_demand_df ex_distance_df) None ''Standard'' = Inr st"
    and e: "extract_solution (st \<lparr>var_value := (\<lambda>v. Some (ex_values v))\<rparr>) = Inr st'"
    and s: "solution st' = Some s"
    by blast
  have xs: "x st = [(''A'', ''X'')]"
    using build_model_fields(7,11) [OF b] by (simp add: ex_tables_simps)
  have cd: "dict_get (cost_dict st) (''A'', ''X'') 0 = 2"
    using build_model_fields(8) [OF b] by (simp add: ex_cost_simps dict_get_def)
  have ext: "\<forall>v r. (\<lambda>v. Some (ex_values v)) v = Some r \<longrightarrow> ex_values v = r"
    by simp
  from extracted_routes [OF b e ext s] xs cd
  have "open_warehouses s = [''A''] \<and>
      routes s = [\<lparr> r_warehouse = ''A'', r_customer = ''X'', r_shipments = 10,
                    r_cost_per_shipment = 2, r_total_cost = 20 \<rparr>]"
    by (simp add: ex_tables_simps ex_values_def round2_def)
  with b e s show ?thesis by blast
qed

text \<open>
  The unit cost of a route is not rounded: with a unit cost of 1/8 the route carries
  1/8, whose rounding to 2 decimals is 0.12.
\<close>

theorem unit_cost_not_rounded:
  "(case run_optimization ex_solver ex_warehouse_df ex_demand_df ex_eighth_distance_df None
           ''Standard'' of
      Inr (st, Some s) \<Rightarrow>
        map r_cost_per_shipment (routes s) = [1 / 8] \<and>
        map (\<lambda>r. round2 (r_cost_per_shipment r)) (routes s) = [3 / 25]
    | _ \<Rightarrow> False)"
  by (simp add: run_defs ex_defs round2_def)

subsection \<open>Demand conservation\<close>

text \<open>
  C8, as the code has it. Take a model built from tables with unique warehouse
  identifiers, an assignment that is feasible for it, and a successful extraction from
  values of the variables with which the assignment agrees. For
  every customer with a demand row of the chosen service level and total demand \<open>d\<close>,
  the shipments of that customer's routes sum to \<open>d\<close> within 0.01 for every warehouse:
  a listed flow is rounded to 2 decimals, a flow not above 0.01 is left out.
\<close>

theorem demand_conservation:
  assumes build: "build_model (load_data wdf ddf mdf) cap flt = Inr st"
    and p: "model st = Some p"
    and dist: "distinct (map wh_warehouse wdf)"
    and feas: "feasible p a"
    and ex: "extract_solution (st \<lparr>var_value := vv\<rparr>) = Inr st'"
    and ext: "\<forall>v r. vv v = Some r \<longrightarrow> a v = r"
    and s: "solution st' = Some s"
    and r: "r \<in> set ddf" "dm_service_level r = flt"
    and d: "d = sum_list (map dm_demand
                 (filter (\<lambda>q. dm_service_level q = flt \<and> dm_city q = dm_city r) ddf))"
  shows "\<bar>sum_list (map r_shipments (filter (\<lambda>t. r_customer t = dm_city r) (routes s))) - d\<bar>
           \<le> real (length wdf) / 100"
proof -
  let ?ws = "map wh_warehouse wdf"
  let ?c = "dm_city r"
  let ?P = "\<lambda>k. 0.01 < a (shipment k)"
  have mem: "(?c, d) \<in> set (demand_dict st)"
    by (rule demand_dict_mem [OF build r d])
  then have ckey: "?c \<in> set (map fst (demand_dict st))" by force
  have dk: "distinct (map fst (demand_dict st))"
    using build_model_fields(7) [OF build] distinct_keys_groupby_sum by simp
  have xs: "x st = concat (map (\<lambda>w. map (\<lambda>c. (w, c)) (map fst (demand_dict st))) ?ws)"
    by (rule x_built_distinct [OF build dist])
  note cons = constraints_built(1) [OF build p]
  note lb = constraints_built(3) [OF build p]
  from mem have "demand_constraint ?ws ?c d \<in> set (constraints p)"
    unfolding cons by (force simp: image_iff)
  with feas have "holds (demand_constraint ?ws ?c d) a"
    by (simp add: feasible_def list_all_iff)
  then have total: "sum_list (map (\<lambda>w. a (shipment (w, ?c))) ?ws) = d"
    by (simp add: holds_demand_constraint)
  have nonneg: "0 \<le> a (shipment (w, ?c))" if "w \<in> set ?ws" for w
  proof -
    from that ckey have "(w, ?c) \<in> set (x st)" unfolding xs by auto
    with feas show ?thesis
      unfolding feasible_def list_all_iff lb by simp
  qed
  have "routes s = map (\<lambda>k. \<lparr> r_warehouse = fst k, r_customer = snd k,
                      r_shipments = round2 (a (shipment k)),
                      r_cost_per_shipment = dict_get (cost_dict st) k 0,
                      r_total_cost = round2 (a (shipment k) * dict_get (cost_dict st) k 0) \<rparr>)
               (filter ?P (x st))"
    by (rule extracted_fields(2) [OF build ex ext s])
  then have "map r_shipments (filter (\<lambda>t. r_customer t = ?c) (routes s)) =
        map (\<lambda>k. round2 (a (shipment k))) (filter (\<lambda>k. snd k = ?c) (filter ?P (x st)))"
    by (simp add: filter_map comp_def)
  also have "filter (\<lambda>k. snd k = ?c) (filter ?P (x st)) = filter ?P (filter (\<lambda>k. snd k = ?c) (x st))"
    by (simp add: conj_commute)
  also have "filter (\<lambda>k. snd k = ?c) (x st) = map (\<lambda>w. (w, ?c)) ?ws"
    unfolding xs by (rule filter_snd_pairs [OF dk ckey])
  finally have "sum_list (map r_shipments (filter (\<lambda>t. r_customer t = ?c) (routes s))) =
      sum_list (map (\<lambda>w. round2 (a (shipment (w, ?c))))
                    (filter (\<lambda>w. 0.01 < a (shipment (w, ?c))) ?ws))"
    by (simp add: filter_map comp_def)
  also have "\<dots> = sum_list (map (\<lambda>w. if 0.01 < a (shipment (w, ?c))
                                     then round2 (a (shipment (w, ?c))) else 0) ?ws)"
    by (rule sum_list_map_filter')
  finally have shipped: "sum_list (map r_shipments (filter (\<lambda>t. r_customer t = ?c) (routes s))) =
      sum_list (map (\<lambda>w. if 0.01 < a (shipment (w, ?c))
                            then round2 (a (shipment (w, ?c))) else 0) ?ws)" .
  have "\<forall>w \<in> set ?ws.
          \<bar>(if 0.01 < a (shipment (w, ?c)) then round2 (a (shipment (w, ?c))) else 0) -
           a (shipment (w, ?c))\<bar> \<le> 1 / 100"
  proof
    fix w assume w: "w \<in> set ?ws"
    have e: "\<bar>round2 (a (shipment (w, ?c))) - a (shipment (w, ?c))\<bar> \<le> 1 / 200"
      by (rule round2_error)
    from nonneg [OF w] e
    show "\<bar>(if 0.01 < a (shipment (w, ?c)) then round2 (a (shipment (w, ?c))) else 0) -
           a (shipment (w, ?c))\<bar> \<le> 1 / 100"
      by (simp add: abs_if split: if_splits)
  qed
  from sum_list_abs_diff [OF this] show ?thesis
    unfolding shipped total by simp
qed

theorem demand_conservation_witness:
  "\<exists>st p st' s.
     build_model (load_data ex_warehouse_df ex_fraction_demand_df ex_distance_df) None ''Standard''
       = Inr st \<and> model st = Some p \<and>
     distinct (map wh_warehouse ex_warehouse_df) \<and>
     feasible p ex_fraction_values \<and>
     extract_solution (st \<lparr>var_value := (\<lambda>v. Some (ex_fraction_values v))\<rparr>) = Inr st' \<and>
     solution st' = Some s \<and>
     demand_of ''X'' (2501 / 250) \<in> set ex_fraction_demand_df \<and>
     map r_shipments (routes s) = [10] \<and>
     \<bar>sum_list (map r_shipments (filter (\<lambda>t. r_customer t = ''X'') (routes s))) - 2501 / 250\<bar>
        \<le> 1 / 100"
proof -
  from ex_fraction_built obtain st p st' s where
    b: "build_model (load_data ex_warehouse_df ex_fraction_demand_df ex_distance_df) None ''Standard''
       = Inr st"
    and p: "model st = Some p"
    and f: "feasible p ex_fraction_values"
    and e: "extract_solution (st \<lparr>var_value := (\<lambda>v. Some (ex_fraction_values v))\<rparr>) = Inr st'"
    and s: "solution st' = Some s"
    and sh: "map r_shipments (routes s) = [10]"
    by (elim exE conjE) (rule that)
  have dst: "distinct (map wh_warehouse ex_warehouse_df)" by (simp add: ex_defs)
  have r: "demand_of ''X'' (2501 / 250) \<in> set ex_fraction_demand_df"
    "dm_service_level (demand_of ''X'' (2501 / 250)) = ''Standard''"
    by (simp_all add: ex2_defs ex_defs)
  have d: "(2501 / 250 :: real) = sum_list (map dm_demand
                 (filter (\<lambda>q. dm_service_level q = ''Standard'' \<and>
                              dm_city q = dm_city (demand_of ''X'' (2501 / 250)))
                    ex_fraction_demand_df))"
    by (simp add: ex2_defs ex_defs)
  have ext: "\<forall>v r. (\<lambda>v. Some (ex_fraction_values v)) v = Some r \<longrightarrow>
                 ex_fraction_values v = r"
    by simp
  from demand_conservation [OF b p dst f e ext s r d]
  have "\<bar>sum_list (map r_shipments (filter (\<lambda>t. r_customer t = ''X'') (routes s))) - 2501 / 250\<bar>
        \<le> 1 / 100"
    by (simp add: ex_defs)
  with b p dst f e s r(1) sh show ?thesis
    by (intro exI [of _ st] exI [of _ p] exI [of _ st'] exI [of _ s] conjI)
qed

text \<open>
  The tolerance 0.001 fails: a demand of 10.004 shipped in full is listed as 10.
\<close>

theorem shipments_rounded_away_from_demand:
  "(case run_optimization ex_fraction_solver ex_warehouse_df ex_fraction_demand_df ex_distance_df
           None ''Standard'' of
      Inr (st, Some s) \<Rightarrow>
        (case model st of Some p \<Rightarrow> feasible p ex_fraction_values | None \<Rightarrow> False) \<and>
        demand_dict st = [(''X'', 2501 / 250)] \<and>
        sum_list (map r_shipments (filter (\<lambda>t. r_customer t = ''X'') (routes s))) = 10 \<and>
        1 / 1000 < \<bar>10 - 2501 / 250 :: real\<bar>
    | _ \<Rightarrow> False)"
  by (simp add: run_defs ex_defs ex2_defs round2_def feasible_def holds_def constraint_defs)

subsection \<open>The optimal scenario\<close>

text \<open>
  C9. When \<open>compare_scenarios\<close> returns, the rows of its table are in strictly
  increasing order of the cap, and the row it reports as optimal is a row of the table
  whose total cost is minimal among all rows and strictly smaller than that of every
  row before it: among rows of equal minimal cost the first in cap order.
\<close>

theorem optimal_is_first_minimum:
  assumes "compare_scenarios slv st = Inr (st', scenario_df, optimal)"
  shows "sorted_wrt (<) (map sc_max_warehouses scenario_df) \<and>
         (\<exists>i<length scenario_df.
            optimal = scenario_df ! i \<and>
            (\<forall>r \<in> set scenario_df. sc_total_cost optimal \<le> sc_total_cost r) \<and>
            (\<forall>j<i. sc_total_cost optimal < sc_total_cost (scenario_df ! j)))"
proof -
  from assms have sw: "sweep slv st [2, 3, 4, 5, 6, 7, 8] [] = Inr (st', scenario_df)"
    and ne: "scenario_df \<noteq> []"
    and opt: "optimal = scenario_df ! idxmin (map sc_total_cost scenario_df)"
    by (auto simp: compare_scenarios_def Let_def split: sum.splits if_splits)
  have "sorted_wrt (<) [2, 3, 4, 5, 6, 7, 8::int]" by simp
  from sweep_caps [OF sw this] have 1: "sorted_wrt (<) (map sc_max_warehouses scenario_df)"
    by auto
  let ?i = "idxmin (map sc_total_cost scenario_df)"
  from ne idxmin_first_min [of "map sc_total_cost scenario_df"]
  have i: "?i < length scenario_df"
    and mn: "\<forall>j<length scenario_df. sc_total_cost (scenario_df ! ?i) \<le> sc_total_cost (scenario_df ! j)"
    and fst: "\<forall>j<?i. sc_total_cost (scenario_df ! ?i) < sc_total_cost (scenario_df ! j)"
    by auto
  from mn have "\<forall>r \<in> set scenario_df. sc_total_cost optimal \<le> sc_total_cost r"
    unfolding opt by (auto simp: in_set_conv_nth)
  with i fst opt 1 show ?thesis by blast
qed

theorem optimal_is_first_minimum_witness:
  "\<exists>st' df opt.
      compare_scenarios ex_solver (load_data ex_warehouse_df ex_demand_df ex_distance_df)
        = Inr (st', df, opt) \<and>
      map sc_max_warehouses df = [2, 3, 4, 5, 6, 7, 8] \<and>
      map sc_total_cost df = [120, 120, 120, 120, 120, 120, 120] \<and>
      sc_max_warehouses opt = 2 \<and>
      list_all (\<lambda>r. sc_total_cost opt \<le> sc_total_cost r) df \<and>
      sorted_wrt (<) (map sc_max_warehouses df)"
proof -
  let ?opt = "\<lparr> sc_max_warehouses = 2, sc_actual_warehouses = 1, sc_total_cost = 120,
         sc_fixed_cost = 100, sc_variable_cost = 20 \<rparr>"
  from ex_compare obtain st' where
    "\<exists>df. compare_scenarios ex_solver (load_data ex_warehouse_df ex_demand_df ex_distance_df)
          = Inr (st', df, ?opt) \<and>
        map sc_max_warehouses df = [2, 3, 4, 5, 6, 7, 8] \<and>
        map sc_total_cost df = [120, 120, 120, 120, 120, 120, 120]" ..
  then obtain df where all:
    "compare_scenarios ex_solver (load_data ex_warehouse_df ex_demand_df ex_distance_df)
          = Inr (st', df, ?opt) \<and>
        map sc_max_warehouses df = [2, 3, 4, 5, 6, 7, 8] \<and>
        map sc_total_cost df = [120, 120, 120, 120, 120, 120, 120]" ..
  from all have
    c: "compare_scenarios ex_solver (load_data ex_warehouse_df ex_demand_df ex_distance_df)
          = Inr (st', df, ?opt)" by (rule conjunct1)
  from all have caps: "map sc_max_warehouses df = [2, 3, 4, 5, 6, 7, 8]"
    by (rule conjunct2 [THEN conjunct1])
  from all have costs: "map sc_total_cost df = [120, 120, 120, 120, 120, 120, 120]"
    by (rule conjunct2 [THEN conjunct2])
  have o: "sc_max_warehouses ?opt = 2" by simp
  from optimal_is_first_minimum [OF c]
  have srt: "sorted_wrt (<) (map sc_max_warehouses df)"
    and mn: "\<forall>r \<in> set df. sc_total_cost ?opt \<le> sc_total_cost r"
    by blast+
  from mn have "list_all (\<lambda>r. sc_total_cost ?opt \<le> sc_total_cost r) df"
    unfolding list_all_iff .
  with c caps costs o srt show ?thesis
    by (intro exI [of _ st'] exI [of _ df] exI [of _ ?opt] conjI)
qed

subsection \<open>Extraction without routes\<close>

text \<open>
  C10, as the code has it. Take a model built from the tables and values \<open>vv\<close> of its
  variables in which every flow has a value that does not exceed 0.01. Then
  \<open>extract_solution\<close> returns no solution, it raises: \<open>TypeError\<close> at the comparison
  of an open indicator that has no value, and otherwise \<open>KeyError\<close> for the column
  \<open>total_cost\<close> of the empty route table. So does \<open>solve\<close> when the solver reports
  \<open>Optimal\<close> or \<open>Feasible\<close> with such flows; it gives a value to every flow, and to
  the open indicator of a warehouse exactly when the warehouse has a nonzero fixed
  cost, or the total demand of the customers is nonzero, or a nonzero cap was given.
\<close>

theorem extract_without_routes_raises:
  assumes build: "build_model (load_data wdf ddf mdf) cap flt = Inr st"
    and p: "model st = Some p"
  shows "(\<forall>vv a. (\<forall>k \<in> set (x st). vv (shipment k) = Some (a (shipment k)) \<and>
                                   a (shipment k) \<le> 0.01) \<longrightarrow>
            extract_solution (st \<lparr>var_value := vv\<rparr>) =
              Inl (if list_all (\<lambda>w. vv (warehouse_open w) \<noteq> None) (map wh_warehouse wdf)
                   then KeyError ''total_cost'' else TypeError)) \<and>
         (\<forall>slv t status vals.
            slv p t = (status, vals) \<longrightarrow> status = Optimal \<or> status = Feasible \<longrightarrow>
            (\<forall>k \<in> set (x st). vals (shipment k) \<le> 0.01) \<longrightarrow>
            solve slv st t =
              Inl (if list_all (\<lambda>w. warehouse_open w \<in> set (variables p)) (map wh_warehouse wdf)
                   then KeyError ''total_cost'' else TypeError)) \<and>
         (\<forall>w \<in> set (map wh_warehouse wdf).
            warehouse_open w \<in> set (variables p) \<longleftrightarrow>
              dict_get (fixed_cost_dict st) w 0 \<noteq> 0 \<or>
              (demand_dict st \<noteq> [] \<and> sum_list (map snd (demand_dict st)) \<noteq> 0) \<or>
              (\<exists>n. cap = Some n \<and> n \<noteq> 0))"
proof -
  let ?ws = "map wh_warehouse wdf"
  have ws: "warehouses st = ?ws"
    using build_model_fields(1) [OF build] by simp
  have none: "var_value st = (\<lambda>_. None)"
    using build_model_fields(6) [OF build] .
  have def: "\<forall>w \<in> set ?ws. fixed_cost_dict st w \<noteq> None"
    using fixed_defined [OF build] by simp
  have part1: "extract_solution (st \<lparr>var_value := vv\<rparr>) =
              Inl (if list_all (\<lambda>w. vv (warehouse_open w) \<noteq> None) ?ws
                   then KeyError ''total_cost'' else TypeError)"
    if small: "\<forall>k \<in> set (x st). vv (shipment k) = Some (a (shipment k)) \<and> a (shipment k) \<le> 0.01"
    for vv a
  proof (cases "list_all (\<lambda>w. vv (warehouse_open w) \<noteq> None) ?ws")
    case False
    then obtain w where w: "w \<in> set ?ws" "vv (warehouse_open w) = None"
      by (auto simp: list_all_iff)
    have "open_list vv ?ws = Inl TypeError"
      using open_list_None [of w ?ws vv] w by simp
    with False p ws show ?thesis
      by (simp add: extract_solution_def)
  next
    case True
    define b where "b v = (case vv v of Some r \<Rightarrow> r | None \<Rightarrow> 0)" for v
    from True have "\<forall>w \<in> set ?ws. vv (warehouse_open w) = Some (b (warehouse_open w))"
      by (auto simp: list_all_iff b_def)
    from open_list_Inr [OF this]
    have ol: "open_list vv ?ws = Inr (filter (\<lambda>w. 0.5 < b (warehouse_open w)) ?ws)" .
    have "\<forall>k \<in> set (x st). var_value (st \<lparr>var_value := vv\<rparr>) (shipment k) = Some (a (shipment k))"
      using small by simp
    from collect_routes_Inr [OF this]
    have "collect_routes (st \<lparr>var_value := vv\<rparr>) (x st) =
            Inr (map (\<lambda>k. route_of (st \<lparr>var_value := vv\<rparr>) k (a (shipment k)))
                     (filter (\<lambda>k. 0.01 < a (shipment k)) (x st)))"
      by simp
    moreover have "filter (\<lambda>k. 0.01 < a (shipment k)) (x st) = []"
      using small by (auto simp: filter_empty_conv not_less)
    ultimately have cr: "collect_routes (st \<lparr>var_value := vv\<rparr>) (x st) = Inr []"
      by simp
    have "\<forall>w \<in> set (filter (\<lambda>w. 0.5 < b (warehouse_open w)) ?ws). fixed_cost_dict st w \<noteq> None"
      using def by (metis filter_is_subset subsetD)
    from sum_fixed_Inr [OF this] True p ws ol cr show ?thesis
      by (simp add: extract_solution_def)
  qed
  have part2: "solve slv st t =
              Inl (if list_all (\<lambda>w. warehouse_open w \<in> set (variables p)) ?ws
                   then KeyError ''total_cost'' else TypeError)"
    if slv: "slv p t = (status, vals)" and ok: "status = Optimal \<or> status = Feasible"
      and small: "\<forall>k \<in> set (x st). vals (shipment k) \<le> 0.01"
    for slv t status vals
  proof -
    let ?vv = "\<lambda>v. if v \<in> set (variables p) then Some (vals v) else var_value st v"
    have "\<forall>k \<in> set (x st). ?vv (shipment k) = Some (vals (shipment k)) \<and> vals (shipment k) \<le> 0.01"
      using small shipment_variables_built [OF build p] by simp
    from part1 [OF this]
    have "extract_solution (st \<lparr>var_value := ?vv\<rparr>) =
              Inl (if list_all (\<lambda>w. ?vv (warehouse_open w) \<noteq> None) ?ws
                   then KeyError ''total_cost'' else TypeError)" .
    moreover have "list_all (\<lambda>w. ?vv (warehouse_open w) \<noteq> None) ?ws \<longleftrightarrow>
                   list_all (\<lambda>w. warehouse_open w \<in> set (variables p)) ?ws"
      by (simp add: none list_all_iff)
    ultimately show ?thesis
      using p slv ok by (simp add: solve_def)
  qed
  from part1 part2 warehouse_open_variables_built [OF build p] show ?thesis
    by (intro conjI allI impI ballI) blast+
qed

text \<open>
  With a fixed cost of 100 the open indicator is in the objective, and the run on zero
  demand ends in \<open>KeyError\<close>.
\<close>

theorem extract_without_routes_raises_witness:
  "\<exists>st p. build_model (load_data ex_warehouse_df ex_zero_demand_df ex_distance_df) None ''Standard''
            = Inr st \<and>
          model st = Some p \<and> x st = [(''A'', ''X'')] \<and>
          ex_zero_solver p 300 = (Optimal, (\<lambda>v. 0)) \<and>
          list_all (\<lambda>w. warehouse_open w \<in> set (variables p)) (map wh_warehouse ex_warehouse_df) \<and>
          solve ex_zero_solver st 300 = Inl (KeyError ''total_cost'')"
proof -
  obtain st where b:
    "build_model (load_data ex_warehouse_df ex_zero_demand_df ex_distance_df) None ''Standard'' = Inr st"
    using build_model_succeeds [of "load_data ex_warehouse_df ex_zero_demand_df ex_distance_df"]
    by auto
  obtain p where p: "model st = Some p"
    using build_model_model [OF b] by blast
  have xs: "x st = [(''A'', ''X'')]"
    using build_model_fields(7,11) [OF b] by (simp add: ex_tables_simps)
  have s: "ex_zero_solver p 300 = (Optimal, (\<lambda>v. 0))"
    by (simp add: ex_zero_solver_def)
  note t = extract_without_routes_raises [OF b p]
  have fd: "dict_get (fixed_cost_dict st) ''A'' 0 = 100"
    using build_model_fields(9) [OF b] by (simp add: ex_cost_simps dict_get_def)
  from t fd have "warehouse_open ''A'' \<in> set (variables p)"
    by (simp add: ex_tables_simps)
  then have v: "list_all (\<lambda>w. warehouse_open w \<in> set (variables p)) (map wh_warehouse ex_warehouse_df)"
    by (simp add: ex_tables_simps)
  from t s xs have "solve ex_zero_solver st 300 =
      Inl (if list_all (\<lambda>w. warehouse_open w \<in> set (variables p)) (map wh_warehouse ex_warehouse_df)
           then KeyError ''total_cost'' else TypeError)"
    by simp
  with v have "solve ex_zero_solver st 300 = Inl (KeyError ''total_cost'')" by simp
  with b p xs s v show ?thesis
    by (intro exI [of _ st] exI [of _ p] conjI)
qed

text \<open>
  The exception is not always the \<open>KeyError\<close>: a warehouse without fixed cost, zero
  demand and no cap leave the open indicator out of the problem, and the run ends in
  \<open>TypeError\<close>.
\<close>

theorem no_routes_type_error:
  "run_optimization ex_zero_solver ex_free_warehouse_df ex_zero_demand_df ex_distance_df None
     ''Standard'' = Inl TypeError"
  by (simp add: run_defs ex_defs ex_free_warehouse_df_def constraint_defs)


end
